theory Spec2Isabelle
  imports Main "HOL-Library.Sublist"
begin

section \<open>Data model\<close>

text \<open>
  The package augments Go errors with a stack trace, a status code, a trace
  identifier and a property bag.  Go's \<^verbatim>\<open>error\<close> interface values are modelled
  by \<open>err option\<close>, \<open>None\<close> being the nil interface.  The foreign error types that
  the package itself creates through the standard library carry the identity of
  their pointer (a number) so that \<^verbatim>\<open>==\<close> on them is equality of the model values:
  \<^item> \<open>ErrorString i s\<close>: the result of \<^verbatim>\<open>stderrors.New(s)\<close>;
  \<^item> \<open>WrapError i s ws\<close>: the result of \<^verbatim>\<open>fmt.Errorf\<close>, with its message and the
    operands of its \<^verbatim>\<open>%w\<close> verbs;
  \<^item> \<open>JoinError i es\<close>: the result of \<^verbatim>\<open>stderrors.Join\<close>;
  \<^item> \<open>TracedPtr a\<close>: a \<^verbatim>\<open>*TracedError\<close>, the object living at address \<open>a\<close> of the store.
\<close>

record StackFrame =
  Function :: string
  File :: string
  Line :: int

datatype err =
    ErrorString nat string
  | WrapError nat string "err list"
  | JoinError nat "err list"
  | TracedPtr nat

text \<open>
  The dynamic values of type \<^verbatim>\<open>any\<close> that the variadic arguments and the property
  bag hold.  \<open>VInt\<close> is Go's \<^verbatim>\<open>int\<close>; no arithmetic is done on it, so it is an
  unbounded integer here.  \<open>VNil\<close>, \<open>VBool\<close> and \<open>VFrames\<close> stand for the values of
  every other type.
\<close>

datatype val =
    VNil
  | VBool bool
  | VInt int
  | VStr string
  | VErr err
  | VFrames "StackFrame list"

text \<open>
  \<^verbatim>\<open>TracedError\<close>.  A nil slice is \<open>None\<close>; a nil map and an empty map read the
  same in Go and are both the empty map here.
\<close>

record TracedError =
  Err :: "err option"
  Stack :: "StackFrame list option"
  StatusCode :: int
  Trace :: string
  Properties :: "string \<rightharpoonup> val"

text \<open>
  The store: the \<^verbatim>\<open>TracedError\<close> objects allocated so far (the address of an
  object is its index) and the next free identity for a foreign error.  An
  address outside the store plays the part of a nil \<^verbatim>\<open>*TracedError\<close>:
  reading a field through it panics.
\<close>

record state =
  objs :: "TracedError list"
  nextid :: nat

datatype fault = NilDereference | SliceBounds | Diverges

definition zeroTrace :: string where
  "zeroTrace = ''00000000000000000000000000000000''"

definition emptyTraced :: TracedError where
  "emptyTraced = \<lparr>Err = None, Stack = None, StatusCode = 0, Trace = [], Properties = Map.empty\<rparr>"

definition alloc :: "state \<Rightarrow> TracedError \<Rightarrow> state \<times> nat" where
  "alloc s te = (s\<lparr>objs := objs s @ [te]\<rparr>, length (objs s))"

definition deref :: "state \<Rightarrow> nat \<Rightarrow> TracedError option" where
  "deref s a = (if a < length (objs s) then Some (objs s ! a) else None)"

definition store :: "state \<Rightarrow> nat \<Rightarrow> TracedError \<Rightarrow> state" where
  "store s a te = s\<lparr>objs := (objs s)[a := te]\<rparr>"

section \<open>Convert and StatusCode\<close>

fun Convert :: "state \<Rightarrow> err option \<Rightarrow> fault + (state \<times> nat option)" where
  "Convert s None = Inr (s, None)"
| "Convert s (Some (TracedPtr a)) =
     (case deref s a of
        None \<Rightarrow> Inl NilDereference
      | Some tracedErr \<Rightarrow>
          if StatusCode tracedErr = 0
          then Inr (store s a (tracedErr\<lparr>StatusCode := 500\<rparr>), Some a)
          else Inr (s, Some a))"
| "Convert s (Some e) =
     (case alloc s (emptyTraced\<lparr>Err := Some e, StatusCode := 500\<rparr>) of
        (s', a) \<Rightarrow> Inr (s', Some a))"

fun StatusCode_of :: "state \<Rightarrow> err option \<Rightarrow> fault + (state \<times> int)" where
  "StatusCode_of s None = Inr (s, 0)"
| "StatusCode_of s (Some e) =
     (case Convert s (Some e) of
        Inl f \<Rightarrow> Inl f
      | Inr (s', None) \<Rightarrow> Inl NilDereference
      | Inr (s', Some a) \<Rightarrow>
          (case deref s' a of
             None \<Rightarrow> Inl NilDereference
           | Some te \<Rightarrow> Inr (s', StatusCode te)))"


section \<open>The status text table\<close>

definition statusTable :: "(int \<times> string) list" where
  "statusTable =
    [(100, ''continue''),
     (101, ''switching protocol''),
     (102, ''processing''),
     (103, ''early hints''),
     (200, ''ok''),
     (201, ''created''),
     (202, ''accepted''),
     (203, ''non-authoritative information''),
     (204, ''no content''),
     (205, ''reset content''),
     (206, ''partial content''),
     (300, ''multiple choices''),
     (301, ''moved permanently''),
     (302, ''found''),
     (303, ''see other''),
     (304, ''not modified''),
     (307, ''temporary redirect''),
     (308, ''permanent redirect''),
     (400, ''bad request''),
     (401, ''unauthorized''),
     (402, ''payment required''),
     (403, ''forbidden''),
     (404, ''not found''),
     (405, ''method not allowed''),
     (406, ''not acceptable''),
     (407, ''proxy authentication required''),
     (408, ''request timeout''),
     (409, ''conflict''),
     (410, ''gone''),
     (411, ''length required''),
     (412, ''preconditions failed''),
     (413, ''content too large''),
     (414, ''uri too long''),
     (415, ''unsupported media type''),
     (416, ''range not satisfiable''),
     (417, ''expectation failed''),
     (418, ''i'm a teapot''),
     (421, ''misdirected request''),
     (422, ''unprocessable content''),
     (423, ''locked''),
     (424, ''failed dependency''),
     (425, ''too early''),
     (426, ''upgrade required''),
     (428, ''precondition required''),
     (429, ''too many requests''),
     (431, ''request header fields too large''),
     (451, ''unavailable for legal reasons''),
     (500, ''internal server error''),
     (501, ''not implemented''),
     (502, ''bad gateway''),
     (503, ''service unavailable''),
     (504, ''gateway timeout''),
     (505, ''http version not supported''),
     (506, ''variant also negotiates''),
     (507, ''insufficient storage''),
     (508, ''loop detected''),
     (510, ''not extended''),
     (511, ''network authentication required'')]"

text \<open>Reading a Go map at a missing key gives the zero value, the empty string.\<close>

definition statusText :: "int \<Rightarrow> string" where
  "statusText k = (case map_of statusTable k of None \<Rightarrow> [] | Some t \<Rightarrow> t)"

section \<open>Stack capture\<close>

text \<open>
  The Go call stack as \<^verbatim>\<open>runtime.Caller\<close> sees it from inside \<^verbatim>\<open>runtimeTrace\<close>,
  innermost frame first: index 0 is \<^verbatim>\<open>runtimeTrace\<close> itself, index 1 its caller, and
  so on.  \<open>pcname\<close> is the name \<^verbatim>\<open>runtime.FuncForPC\<close> gives, \<open>None\<close> when it
  returns nil.
\<close>

record rtframe =
  pcname :: "string option"
  pcfile :: string
  pcline :: int

definition lastSegment :: "string \<Rightarrow> string" where
  "lastSegment f = rev (takeWhile (\<lambda>c. c \<noteq> CHR ''/'') (rev f))"

definition runtimeTrace :: "rtframe list \<Rightarrow> nat \<Rightarrow> StackFrame option" where
  "runtimeTrace cs levels =
     (if levels + 1 < length cs
      then let fr = cs ! (levels + 1) in
        Some \<lparr>Function = (case pcname fr of None \<Rightarrow> ''?'' | Some f \<Rightarrow> lastSegment f),
              File = pcfile fr, Line = pcline fr\<rparr>
      else None)"

definition hidden :: "string \<Rightarrow> bool" where
  "hidden f \<longleftrightarrow>
     prefix ''runtime.'' f \<or> (prefix ''errors.'' f \<and> \<not> prefix ''errors.Test'' f)"

function traceLoop :: "rtframe list \<Rightarrow> nat \<Rightarrow> StackFrame option" where
  "traceLoop cs level =
     (case runtimeTrace cs level of
        None \<Rightarrow> None
      | Some fr \<Rightarrow> if hidden (Function fr) then traceLoop cs (level + 1) else Some fr)"
  by pat_completeness auto
termination
  by (relation "measure (\<lambda>(cs, level). length cs - level)")
     (auto simp: runtimeTrace_def split: if_splits)

declare traceLoop.simps [simp del]

definition appendFrame :: "TracedError \<Rightarrow> StackFrame \<Rightarrow> TracedError" where
  "appendFrame te fr =
     te\<lparr>Stack := Some ((case Stack te of None \<Rightarrow> [] | Some fs \<Rightarrow> fs) @ [fr])\<rparr>"

definition traceCaller :: "state \<Rightarrow> rtframe list \<Rightarrow> err option \<Rightarrow> fault + (state \<times> err option)" where
  "traceCaller s cs e =
     (case e of
        None \<Rightarrow> Inr (s, None)
      | Some x \<Rightarrow>
         (case Convert s (Some x) of
            Inl f \<Rightarrow> Inl f
          | Inr (s', None) \<Rightarrow> Inl NilDereference
          | Inr (s', Some a) \<Rightarrow>
             (case traceLoop cs 1 of
                None \<Rightarrow> Inr (s', Some (TracedPtr a))
              | Some fr \<Rightarrow>
                 (case deref s' a of
                    None \<Rightarrow> Inl NilDereference
                  | Some te \<Rightarrow> Inr (store s' a (appendFrame te fr), Some (TracedPtr a))))))"


text \<open>
  What \<^verbatim>\<open>traceCaller\<close> makes of the object it is given: \<^verbatim>\<open>Convert\<close> turns a
  zero status code into 500, and the frame of the caller, if the stack shows one,
  is appended.
\<close>

definition traced :: "rtframe list \<Rightarrow> TracedError \<Rightarrow> TracedError" where
  "traced cs te =
     (let te0 = te\<lparr>StatusCode := (if StatusCode te = 0 then 500 else StatusCode te)\<rparr>
      in case traceLoop cs 1 of None \<Rightarrow> te0 | Some fr \<Rightarrow> appendFrame te0 fr)"

section \<open>New, Trace and Join\<close>

text \<open>
  \<^verbatim>\<open>fmt.Errorf\<close> belongs to the standard library.  Its formatting is a parameter
  \<open>fmt\<close> of the model: from the store, the pattern and the operands it gives the
  message and the operands of the \<^verbatim>\<open>%w\<close> verbs.  With no such operand the
  result is a plain error, otherwise an error that unwraps to them.
\<close>

type_synonym formatter = "state \<Rightarrow> string \<Rightarrow> val list \<Rightarrow> string \<times> err list"

definition stderrorsNew :: "state \<Rightarrow> string \<Rightarrow> err \<times> state" where
  "stderrorsNew s msg = (ErrorString (nextid s) msg, s\<lparr>nextid := Suc (nextid s)\<rparr>)"

definition Errorf :: "formatter \<Rightarrow> state \<Rightarrow> string \<Rightarrow> val list \<Rightarrow> err \<times> state" where
  "Errorf fmt s pattern a =
     (case fmt s pattern a of
        (msg, ws) \<Rightarrow>
          ((if ws = [] then ErrorString (nextid s) msg else WrapError (nextid s) msg ws),
           s\<lparr>nextid := Suc (nextid s)\<rparr>))"

text \<open>\<^verbatim>\<open>strings.Count\<close> of a one-byte and of a two-byte substring (non-overlapping).\<close>

definition countPct :: "string \<Rightarrow> nat" where
  "countPct p = length (filter (\<lambda>c. c = CHR ''%'') p)"

fun countPctPct :: "string \<Rightarrow> nat" where
  "countPctPct (c # d # r) =
     (if c = CHR ''%'' \<and> d = CHR ''%'' then Suc (countPctPct r) else countPctPct (d # r))"
| "countPctPct r = 0"

definition pctArgs :: "string \<Rightarrow> val list \<Rightarrow> int" where
  "pctArgs pattern a = min (int (countPct pattern) - 2 * int (countPctPct pattern)) (int (length a))"

definition byte :: "char \<Rightarrow> nat" where
  "byte c = of_char c"

definition isHex :: "string \<Rightarrow> bool" where
  "isHex s \<longleftrightarrow>
     list_all (\<lambda>c. \<not> ((byte c < byte CHR ''0'' \<or> byte c > byte CHR ''9'')
                     \<and> (byte c < byte CHR ''a'' \<or> byte c > byte CHR ''f'')
                     \<and> (byte c < byte CHR ''A'' \<or> byte c > byte CHR ''F''))) s"

text \<open>The merge of an argument that is itself a \<^verbatim>\<open>*TracedError\<close>.\<close>

definition mergeTraced :: "TracedError \<Rightarrow> TracedError \<Rightarrow> TracedError" where
  "mergeTraced e tracedErr =
     (let e1 = (if StatusCode e = 0 then e\<lparr>StatusCode := StatusCode tracedErr\<rparr> else e);
          e2 = (if Trace e1 = [] \<or> Trace e1 = zeroTrace then e1\<lparr>Trace := Trace tracedErr\<rparr> else e1)
      in e2\<lparr>Properties := Properties e2 ++ Properties tracedErr, Stack := Stack tracedErr\<rparr>)"

text \<open>The cause of the error under construction takes in an error argument.\<close>

definition wrapCause :: "formatter \<Rightarrow> state \<Rightarrow> TracedError \<Rightarrow> err \<Rightarrow> state \<times> TracedError" where
  "wrapCause fmt s e k =
     (case Err e of
        None \<Rightarrow> (s, e\<lparr>Err := Some k\<rparr>)
      | Some c \<Rightarrow> (case Errorf fmt s ''%w: %w'' [VErr c, VErr k] of
                    (w, s') \<Rightarrow> (s', e\<lparr>Err := Some w\<rparr>)))"

text \<open>
  One turn of the loop of \<^verbatim>\<open>New\<close>: the type switch on the argument \<open>v\<close> at
  index \<open>i\<close>, with \<open>rest\<close> the arguments after it.  It gives the arguments that
  remain for the next turn (\<^verbatim>\<open>i++\<close>, or \<^verbatim>\<open>i += 2\<close> for a key and its value).
  The error under construction is local to \<^verbatim>\<open>New\<close> until the loop ends, so it
  is passed as a value and allocated afterwards.
\<close>

fun classifyArg :: "formatter \<Rightarrow> state \<Rightarrow> TracedError \<Rightarrow> val \<Rightarrow> val list
    \<Rightarrow> fault + (state \<times> TracedError \<times> val list)" where
  "classifyArg fmt s e (VInt k) rest =
     (if Err e = None
      then (case stderrorsNew s (statusText k) of
              (x, s') \<Rightarrow> Inr (s', e\<lparr>StatusCode := k, Err := Some x\<rparr>, rest))
      else Inr (s, e\<lparr>StatusCode := k\<rparr>, rest))"
| "classifyArg fmt s e (VErr k) rest =
     (case wrapCause fmt s e k of
        (s1, e1) \<Rightarrow>
          (case k of
             TracedPtr a \<Rightarrow>
               (case deref s1 a of
                  None \<Rightarrow> Inl NilDereference
                | Some tracedErr \<Rightarrow> Inr (s1, mergeTraced e1 tracedErr, rest))
           | _ \<Rightarrow> Inr (s1, e1, rest)))"
| "classifyArg fmt s e (VStr k) rest =
     (if length k = 32 \<and> isHex k then Inr (s, e\<lparr>Trace := k\<rparr>, rest)
      else (case rest of
              v # rest' \<Rightarrow> Inr (s, e\<lparr>Properties := (Properties e)(k \<mapsto> v)\<rparr>, rest')
            | [] \<Rightarrow> Inr (s, e\<lparr>Properties := (Properties e)(k \<mapsto> VStr [])\<rparr>, [])))"
| "classifyArg fmt s e k rest =
     Inr (s, e\<lparr>Properties := (Properties e)(''!BADKEY'' \<mapsto> k)\<rparr>, rest)"

function classify :: "formatter \<Rightarrow> state \<Rightarrow> TracedError \<Rightarrow> val list \<Rightarrow> fault + (state \<times> TracedError)" where
  "classify fmt s e [] = Inr (s, e)"
| "classify fmt s e (v # rest) =
     (case classifyArg fmt s e v rest of
        Inl f \<Rightarrow> Inl f
      | Inr (s', e', rest') \<Rightarrow> classify fmt s' e' rest')"
  by pat_completeness auto
termination
proof (relation "measure (\<lambda>(fmt, s, e, a). length a)", goal_cases)
  case 1
  show ?case by simp
next
  case (2 fmt s e v rest x2 s' y e' rest')
  then have "classifyArg fmt s e v rest = Inr (s', e', rest')" by simp
  then have "length rest' \<le> length rest"
    by (cases v) (auto split: if_splits prod.splits err.splits option.splits list.splits)
  then show ?case by simp
qed

text \<open>
  The start of \<^verbatim>\<open>New\<close>: the empty error, with the formatted message as its cause
  unless the pattern is empty.
\<close>

definition newInit :: "formatter \<Rightarrow> state \<Rightarrow> string \<Rightarrow> val list \<Rightarrow> state \<times> TracedError" where
  "newInit fmt s pattern fa =
     (if pattern \<noteq> []
      then (case Errorf fmt s pattern fa of
              (x, s') \<Rightarrow> (s', emptyTraced\<lparr>Err := Some x\<rparr>))
      else (s, emptyTraced))"

text \<open>The end of \<^verbatim>\<open>New\<close>: the defaults for a missing cause and a missing status code.\<close>

definition newDefaults :: "state \<Rightarrow> TracedError \<Rightarrow> state \<times> TracedError" where
  "newDefaults s e =
     (case (if Err e = None
            then (case stderrorsNew s ''unspecified error'' of
                    (x, s') \<Rightarrow> (s', e\<lparr>Err := Some x\<rparr>))
            else (s, e)) of
        (s2, e2) \<Rightarrow> (s2, if StatusCode e2 = 0 then e2\<lparr>StatusCode := 500\<rparr> else e2))"

definition New :: "formatter \<Rightarrow> state \<Rightarrow> rtframe list \<Rightarrow> string \<Rightarrow> val list \<Rightarrow> fault + (state \<times> err option)" where
  "New fmt s cs pattern a =
     (let n = pctArgs pattern a in
      if n < 0 then Inl SliceBounds
      else
        (case newInit fmt s pattern (take (nat n) a) of
           (s0, e0) \<Rightarrow>
             (case classify fmt s0 e0 (drop (nat n) a) of
                Inl f \<Rightarrow> Inl f
              | Inr (s1, e1) \<Rightarrow>
                 (case newDefaults s1 e1 of
                    (s2, e2) \<Rightarrow>
                      (case alloc s2 e2 of
                         (s3, a3) \<Rightarrow> traceCaller s3 cs (Some (TracedPtr a3)))))))"

definition Trace_err :: "formatter \<Rightarrow> state \<Rightarrow> rtframe list \<Rightarrow> err option \<Rightarrow> val list \<Rightarrow> fault + (state \<times> err option)" where
  "Trace_err fmt s cs e a =
     (case e of
        None \<Rightarrow> Inr (s, None)
      | Some x \<Rightarrow> New fmt s cs [] (VErr x # a))"

text \<open>\<^verbatim>\<open>stderrors.Join\<close>: nil when every operand is nil, else a new error over the non-nil ones.\<close>

definition nonNil :: "err option list \<Rightarrow> err list" where
  "nonNil errs = List.map_filter (\<lambda>e. e) errs"

definition stderrorsJoin :: "state \<Rightarrow> err option list \<Rightarrow> err option \<times> state" where
  "stderrorsJoin s errs =
     (case nonNil errs of
        [] \<Rightarrow> (None, s)
      | es \<Rightarrow> (Some (JoinError (nextid s) es), s\<lparr>nextid := Suc (nextid s)\<rparr>))"

definition joinScan :: "err option list \<Rightarrow> err option \<times> nat" where
  "joinScan errs =
     fold (\<lambda>e (er, n). case e of None \<Rightarrow> (er, n) | Some x \<Rightarrow> (Some x, Suc n)) errs (None, 0)"

definition Join :: "state \<Rightarrow> rtframe list \<Rightarrow> err option list \<Rightarrow> fault + (state \<times> err option)" where
  "Join s cs errs =
     (case joinScan errs of
        (er, n) \<Rightarrow>
          if n = 0 then Inr (s, None)
          else if n = 1 then traceCaller s cs er
          else (case stderrorsJoin s errs of (j, s') \<Rightarrow> traceCaller s' cs j))"

section \<open>Panic capture\<close>

text \<open>
  The loop of \<^verbatim>\<open>traceFull\<close>: the frames from a level on, up to the end of the
  stack or to the frame of \<^verbatim>\<open>CatchPanic\<close>, without the hidden ones.
\<close>

function fullLoop :: "rtframe list \<Rightarrow> nat \<Rightarrow> StackFrame list" where
  "fullLoop cs levels =
     (case runtimeTrace cs (1 + levels) of
        None \<Rightarrow> []
      | Some fr \<Rightarrow>
          if Function fr = ''errors.CatchPanic'' then []
          else if hidden (Function fr) then fullLoop cs (levels + 1)
          else fr # fullLoop cs (levels + 1))"
  by pat_completeness auto
termination
  by (relation "measure (\<lambda>(cs, levels). length cs - levels)")
     (auto simp: runtimeTrace_def split: if_splits)

declare fullLoop.simps [simp del]

definition traceFull :: "state \<Rightarrow> rtframe list \<Rightarrow> err option \<Rightarrow> int \<Rightarrow> fault + (state \<times> err option)" where
  "traceFull s cs e level =
     (case e of
        None \<Rightarrow> Inr (s, None)
      | Some x \<Rightarrow>
         (case Convert s (Some x) of
            Inl f \<Rightarrow> Inl f
          | Inr (s', None) \<Rightarrow> Inl NilDereference
          | Inr (s', Some a) \<Rightarrow>
             (case deref s' a of
                None \<Rightarrow> Inl NilDereference
              | Some te \<Rightarrow>
                  Inr (store s' a
                         (fold (\<lambda>fr t. appendFrame t fr)
                            (fullLoop cs (nat (if level < 0 then 0 else level))) te),
                       Some (TracedPtr a)))))"

text \<open>
  What the function given to \<^verbatim>\<open>CatchPanic\<close> did: it returned an error (or nil), or
  it panicked with a value, which \<^verbatim>\<open>recover\<close> hands over.  The store is the one
  the function left behind, the call stack the one of the deferred function.
\<close>

datatype outcome = Returns "err option" | Panics val

definition CatchPanic :: "formatter \<Rightarrow> state \<Rightarrow> rtframe list \<Rightarrow> outcome \<Rightarrow> fault + (state \<times> err option)" where
  "CatchPanic fmt s cs out =
     (case out of
        Returns e \<Rightarrow> Inr (s, e)
      | Panics r \<Rightarrow>
          if r = VNil then Inr (s, None)
          else (case r of
                  VErr e \<Rightarrow> traceFull s cs (Some e) 1
                | _ \<Rightarrow> (case Errorf fmt s ''%v'' [r] of
                          (e, s') \<Rightarrow> traceFull s' cs (Some e) 1)))"

section \<open>Is and Unwrap\<close>





section \<open>The error message\<close>

text \<open>
  \<^verbatim>\<open>Error()\<close> of the error types of the model.  A \<^verbatim>\<open>*TracedError\<close> delegates to
  its cause through the store, so the recursion is bounded by fuel; calling the
  method of a nil cause panics.
\<close>

definition joinLines :: "string list \<Rightarrow> string" where
  "joinLines ms = (case ms of [] \<Rightarrow> [] | m # r \<Rightarrow> m @ concat (map (\<lambda>x. CHR 0x0A # x) r))"

fun errText :: "nat \<Rightarrow> state \<Rightarrow> err \<Rightarrow> fault + string"
  and errTexts :: "nat \<Rightarrow> state \<Rightarrow> err list \<Rightarrow> fault + string list" where
  "errText 0 s e = Inl Diverges"
| "errText (Suc n) s (ErrorString i m) = Inr m"
| "errText (Suc n) s (WrapError i m ws) = Inr m"
| "errText (Suc n) s (JoinError i es) =
     (case errTexts n s es of Inl f \<Rightarrow> Inl f | Inr ms \<Rightarrow> Inr (joinLines ms))"
| "errText (Suc n) s (TracedPtr a) =
     (case deref s a of
        None \<Rightarrow> Inl NilDereference
      | Some te \<Rightarrow> (case Err te of None \<Rightarrow> Inl NilDereference | Some c \<Rightarrow> errText n s c))"
| "errTexts n s [] = Inr []"
| "errTexts n s (e # es) =
     (case errText n s e of
        Inl f \<Rightarrow> Inl f
      | Inr m \<Rightarrow> (case errTexts n s es of Inl f \<Rightarrow> Inl f | Inr ms \<Rightarrow> Inr (m # ms)))"

section \<open>The structured form\<close>










text \<open>Every object of the store has a status code that is not negative.\<close>

definition nonnegStore :: "state \<Rightarrow> bool" where
  "nonnegStore s \<longleftrightarrow> list_all (\<lambda>te. 0 \<le> StatusCode te) (objs s)"

section \<open>Example values\<close>

definition boom :: err where
  "boom = ErrorString 0 ''boom''"

definition stateBoom :: state where
  "stateBoom = \<lparr>objs = [emptyTraced\<lparr>Err := Some boom\<rparr>], nextid = 1\<rparr>"

definition state404 :: state where
  "state404 = \<lparr>objs = [emptyTraced\<lparr>Err := Some boom, StatusCode := 404\<rparr>], nextid = 1\<rparr>"

text \<open>A formatter for the examples: the pattern as the message, every error operand wrapped.\<close>

definition plainFormat :: formatter where
  "plainFormat s pattern a = (pattern, List.map_filter (\<lambda>v. case v of VErr x \<Rightarrow> Some x | _ \<Rightarrow> None) a)"

definition state0 :: state where
  "state0 = \<lparr>objs = [], nextid = 0\<rparr>"

text \<open>A call stack: \<^verbatim>\<open>main.main\<close> calls \<^verbatim>\<open>New\<close>.\<close>

definition stackMain :: "rtframe list" where
  "stackMain =
     [\<lparr>pcname = Some ''github.com/microbus-io/errors.runtimeTrace'', pcfile = ''trace.go'', pcline = 84\<rparr>,
      \<lparr>pcname = Some ''github.com/microbus-io/errors.traceCaller'', pcfile = ''trace.go'', pcline = 32\<rparr>,
      \<lparr>pcname = Some ''github.com/microbus-io/errors.New'', pcfile = ''tracederror.go'', pcline = 153\<rparr>,
      \<lparr>pcname = Some ''main.main'', pcfile = ''main.go'', pcline = 10\<rparr>,
      \<lparr>pcname = Some ''runtime.main'', pcfile = ''proc.go'', pcline = 250\<rparr>,
      \<lparr>pcname = Some ''runtime.goexit'', pcfile = ''asm.s'', pcline = 1\<rparr>]"

definition frameMain :: StackFrame where
  "frameMain = \<lparr>Function = ''main.main'', File = ''main.go'', Line = 10\<rparr>"

text \<open>The object behind the pointer that an operation returns, in the store it returns.\<close>

definition resultOf :: "fault + (state \<times> err option) \<Rightarrow> TracedError option" where
  "resultOf r =
     (case r of
        Inr (s', Some (TracedPtr a)) \<Rightarrow> deref s' a
      | _ \<Rightarrow> None)"

text \<open>The object behind the pointer that \<^verbatim>\<open>Convert\<close> returns, and the value an accessor returns.\<close>

definition convertedOf :: "fault + (state \<times> nat option) \<Rightarrow> TracedError option" where
  "convertedOf r =
     (case r of
        Inr (s', Some a) \<Rightarrow> deref s' a
      | _ \<Rightarrow> None)"

definition valueOf :: "fault + (state \<times> 'a) \<Rightarrow> 'a option" where
  "valueOf r = (case r of Inr (s', v) \<Rightarrow> Some v | Inl f \<Rightarrow> None)"








section \<open>Which arguments are classified\<close>

text \<open>
  The arguments that the loop of \<^verbatim>\<open>New\<close> classifies by their type, in order: a
  string that is not a trace identifier is a property key and takes the argument
  after it as its value, which is then not classified.
\<close>

fun classified :: "val list \<Rightarrow> val list" where
  "classified [] = []"
| "classified (VStr k # rest) =
     VStr k # (if length k = 32 \<and> isHex k then classified rest else classified (drop 1 rest))"
| "classified (v # rest) = v # classified rest"

definition statusArgs :: "val list \<Rightarrow> int list" where
  "statusArgs a = List.map_filter (\<lambda>v. case v of VInt k \<Rightarrow> Some k | _ \<Rightarrow> None) (classified a)"

definition mergedArgs :: "val list \<Rightarrow> nat list" where
  "mergedArgs a =
     List.map_filter (\<lambda>v. case v of VErr (TracedPtr p) \<Rightarrow> Some p | _ \<Rightarrow> None) (classified a)"

definition isOther :: "val \<Rightarrow> bool" where
  "isOther v = (case v of VInt k \<Rightarrow> False | VErr x \<Rightarrow> False | VStr k \<Rightarrow> False | _ \<Rightarrow> True)"

definition otherArgs :: "val list \<Rightarrow> val list" where
  "otherArgs a = filter isOther (classified a)"

definition keyArgs :: "val list \<Rightarrow> string list" where
  "keyArgs a =
     List.map_filter
       (\<lambda>v. case v of VStr k \<Rightarrow> (if length k = 32 \<and> isHex k then None else Some k) | _ \<Rightarrow> None)
       (classified a)"

section \<open>Verified properties\<close>

subsection \<open>The store\<close>

lemma deref_store_same: "a < length (objs s) \<Longrightarrow> deref (store s a te) a = Some te"
  by (simp add: deref_def store_def)

lemma deref_store_other: "b \<noteq> a \<Longrightarrow> deref (store s a te) b = deref s b"
  by (simp add: deref_def store_def)

lemma deref_Some_less: "deref s a = Some te \<Longrightarrow> a < length (objs s)"
  by (simp add: deref_def split: if_splits)

lemma deref_alloc_new: "alloc s te = (s', a) \<Longrightarrow> deref s' a = Some te \<and> deref s a = None"
  by (auto simp: alloc_def deref_def)

lemma deref_alloc_old: "alloc s te = (s', a) \<Longrightarrow> deref s b = Some x \<Longrightarrow> deref s' b = Some x"
  by (auto simp: alloc_def deref_def nth_append split: if_splits)

lemma deref_stateBoom: "deref stateBoom 0 = Some (emptyTraced\<lparr>Err := Some boom\<rparr>)"
  by (simp add: deref_def stateBoom_def)

subsection \<open>Convert\<close>

lemma Convert_traced:
  "deref s a = Some te \<Longrightarrow>
   Convert s (Some (TracedPtr a)) =
     Inr (if StatusCode te = 0 then store s a (te\<lparr>StatusCode := 500\<rparr>) else s, Some a)"
  by simp

text \<open>
  C10.  \<^verbatim>\<open>Convert\<close> of a \<^verbatim>\<open>*TracedError\<close> returns the very pointer it was given.
  When the status code of the object is zero, 500 is written into the object at
  that address; the cause, the stack, the trace identifier and the properties of
  the object stay as they were, no object is allocated and no other object
  changes.
\<close>

theorem Convert_mutates_in_place:
  assumes "deref s a = Some te" and "Convert s (Some (TracedPtr a)) = Inr (s', r)"
  shows "r = Some a
       \<and> deref s' a = Some (te\<lparr>StatusCode := (if StatusCode te = 0 then 500 else StatusCode te)\<rparr>)
       \<and> (\<forall>te'. deref s' a = Some te' \<longrightarrow>
            Err te' = Err te \<and> Stack te' = Stack te \<and> Trace te' = Trace te
            \<and> Properties te' = Properties te)
       \<and> length (objs s') = length (objs s)
       \<and> (\<forall>b. b \<noteq> a \<longrightarrow> deref s' b = deref s b)"
proof (cases "StatusCode te = 0")
  case True
  with assms have s': "s' = store s a (te\<lparr>StatusCode := 500\<rparr>)" and r: "r = Some a"
    by simp_all
  from assms(1) have "a < length (objs s)" by (rule deref_Some_less)
  then show ?thesis using True r
    by (simp add: s' deref_store_same deref_store_other) (simp add: store_def)
next
  case False
  with assms have "s' = s" and "r = Some a" by simp_all
  with assms(1) False show ?thesis by simp
qed

theorem Convert_mutates_in_place_witness:
  "deref stateBoom 0 = Some (emptyTraced\<lparr>Err := Some boom\<rparr>)
   \<and> Convert stateBoom (Some (TracedPtr 0)) =
       Inr (store stateBoom 0 (emptyTraced\<lparr>Err := Some boom, StatusCode := 500\<rparr>), Some 0)
   \<and> deref (store stateBoom 0 (emptyTraced\<lparr>Err := Some boom, StatusCode := 500\<rparr>)) 0
       = Some (emptyTraced\<lparr>Err := Some boom, StatusCode := 500\<rparr>)"
proof -
  have c: "Convert stateBoom (Some (TracedPtr 0)) =
       Inr (store stateBoom 0 (emptyTraced\<lparr>Err := Some boom, StatusCode := 500\<rparr>), Some 0)"
    by (simp add: deref_stateBoom emptyTraced_def)
  from Convert_mutates_in_place [OF deref_stateBoom c] deref_stateBoom c show ?thesis
    by (simp add: emptyTraced_def)
qed

lemma Convert_foreign:
  "(\<forall>a. e \<noteq> TracedPtr a) \<Longrightarrow>
   Convert s (Some e) =
     Inr (s\<lparr>objs := objs s @ [\<lparr>Err = Some e, Stack = None, StatusCode = 500, Trace = [],
                                Properties = Map.empty\<rparr>]\<rparr>, Some (length (objs s)))"
  by (cases e) (simp_all add: alloc_def emptyTraced_def)

text \<open>
  C6.  \<^verbatim>\<open>Convert\<close> of an error that is already a \<^verbatim>\<open>*TracedError\<close> returns its
  address; the object read back at that address has status code 500 where it
  was zero and is otherwise the object as it was (same cause, stack, trace
  identifier and properties), nothing is allocated and no other object changes.
  \<^verbatim>\<open>Convert\<close> of any other non-nil error returns the address of one new object
  with status code 500, the error as its cause, no stack, no trace identifier
  and no properties, every earlier object being as it was.  In neither case is
  a stack frame added to any object.
\<close>

theorem Convert_frame:
  "(deref s a = Some te \<longrightarrow>
      (\<exists>s'. Convert s (Some (TracedPtr a)) = Inr (s', Some a)
          \<and> deref s' a = Some (te\<lparr>StatusCode := (if StatusCode te = 0 then 500 else StatusCode te)\<rparr>)
          \<and> (\<forall>te'. deref s' a = Some te' \<longrightarrow>
                 StatusCode te' = (if StatusCode te = 0 then 500 else StatusCode te)
                 \<and> Err te' = Err te \<and> Stack te' = Stack te \<and> Trace te' = Trace te
                 \<and> Properties te' = Properties te)
          \<and> length (objs s') = length (objs s)
          \<and> (\<forall>b. b \<noteq> a \<longrightarrow> deref s' b = deref s b)))
   \<and> ((\<forall>b. e \<noteq> TracedPtr b) \<longrightarrow>
      (\<exists>s'. Convert s (Some e) = Inr (s', Some (length (objs s)))
          \<and> deref s (length (objs s)) = None
          \<and> deref s' (length (objs s)) =
              Some \<lparr>Err = Some e, Stack = None, StatusCode = 500, Trace = [], Properties = Map.empty\<rparr>
          \<and> length (objs s') = Suc (length (objs s))
          \<and> (\<forall>b x. deref s b = Some x \<longrightarrow> deref s' b = Some x)))"
proof (intro conjI impI)
  assume d: "deref s a = Some te"
  then have l: "a < length (objs s)" by (rule deref_Some_less)
  let ?te' = "te\<lparr>StatusCode := (if StatusCode te = 0 then 500 else StatusCode te)\<rparr>"
  let ?s' = "if StatusCode te = 0 then store s a (te\<lparr>StatusCode := 500\<rparr>) else s"
  have c: "Convert s (Some (TracedPtr a)) = Inr (?s', Some a)"
    using d by (rule Convert_traced)
  have r: "deref ?s' a = Some ?te'"
    using d l by (simp add: deref_store_same)
  have n: "length (objs ?s') = length (objs s)"
    by (simp add: store_def)
  have o: "\<forall>b. b \<noteq> a \<longrightarrow> deref ?s' b = deref s b"
    by (simp add: deref_store_other)
  have f: "\<forall>te'. deref ?s' a = Some te' \<longrightarrow>
                 StatusCode te' = (if StatusCode te = 0 then 500 else StatusCode te)
                 \<and> Err te' = Err te \<and> Stack te' = Stack te \<and> Trace te' = Trace te
                 \<and> Properties te' = Properties te"
    using r by auto
  from c r f n o
  show "\<exists>s'. Convert s (Some (TracedPtr a)) = Inr (s', Some a)
          \<and> deref s' a = Some ?te'
          \<and> (\<forall>te'. deref s' a = Some te' \<longrightarrow>
                 StatusCode te' = (if StatusCode te = 0 then 500 else StatusCode te)
                 \<and> Err te' = Err te \<and> Stack te' = Stack te \<and> Trace te' = Trace te
                 \<and> Properties te' = Properties te)
          \<and> length (objs s') = length (objs s)
          \<and> (\<forall>b. b \<noteq> a \<longrightarrow> deref s' b = deref s b)"
    by blast
next
  assume f: "\<forall>b. e \<noteq> TracedPtr b"
  let ?te = "\<lparr>Err = Some e, Stack = None, StatusCode = 500, Trace = [], Properties = Map.empty\<rparr>"
  let ?s' = "s\<lparr>objs := objs s @ [?te]\<rparr>"
  have al: "alloc s ?te = (?s', length (objs s))" by (simp add: alloc_def)
  have "Convert s (Some e) = Inr (?s', Some (length (objs s)))"
    using f by (rule Convert_foreign)
  moreover have "deref s (length (objs s)) = None" by (simp add: deref_def)
  moreover have "deref ?s' (length (objs s)) = Some ?te"
    using deref_alloc_new [OF al] by simp
  moreover have "length (objs ?s') = Suc (length (objs s))" by simp
  moreover have "\<forall>b x. deref s b = Some x \<longrightarrow> deref ?s' b = Some x"
    using deref_alloc_old [OF al] by blast
  ultimately show "\<exists>s'. Convert s (Some e) = Inr (s', Some (length (objs s)))
          \<and> deref s (length (objs s)) = None
          \<and> deref s' (length (objs s)) = Some ?te
          \<and> length (objs s') = Suc (length (objs s))
          \<and> (\<forall>b x. deref s b = Some x \<longrightarrow> deref s' b = Some x)"
    by blast
qed

theorem Convert_frame_witness:
  "deref stateBoom 0 = Some (emptyTraced\<lparr>Err := Some boom\<rparr>)
   \<and> (\<exists>s'. Convert stateBoom (Some (TracedPtr 0)) = Inr (s', Some 0)
        \<and> deref s' 0 = Some \<lparr>Err = Some boom, Stack = None, StatusCode = 500, Trace = [],
                              Properties = Map.empty\<rparr>
        \<and> length (objs s') = 1)
   \<and> (\<exists>s'. Convert stateBoom (Some boom) = Inr (s', Some 1) \<and> deref stateBoom 1 = None
        \<and> deref s' 1 = Some \<lparr>Err = Some boom, Stack = None, StatusCode = 500, Trace = [],
                              Properties = Map.empty\<rparr>
        \<and> length (objs s') = 2)"
proof -
  have f: "\<forall>b. boom \<noteq> TracedPtr b" by (simp add: boom_def)
  have l: "length (objs stateBoom) = 1" by (simp add: stateBoom_def)
  from Convert_frame [of stateBoom 0 "emptyTraced\<lparr>Err := Some boom\<rparr>" boom] deref_stateBoom f l
  show ?thesis by (auto simp: emptyTraced_def)
qed

subsection \<open>Nil inputs\<close>

lemma joinScan_fold_None:
  "list_all (\<lambda>e. e = None) errs \<Longrightarrow>
   fold (\<lambda>e (er, n). case e of None \<Rightarrow> (er, n) | Some x \<Rightarrow> (Some x, Suc n)) errs acc = acc"
  by (induction errs arbitrary: acc) (auto split: prod.splits)

text \<open>
  C4.  On a nil input no operation panics, and the store is left as it was:
  \<^verbatim>\<open>Trace(nil, ...)\<close> and \<^verbatim>\<open>Convert(nil)\<close> return nil, \<^verbatim>\<open>Join\<close> of no
  error or of nil errors only returns nil, and \<^verbatim>\<open>StatusCode(nil)\<close> is 0.
\<close>

theorem null_safe:
  "Trace_err fmt s cs None a = Inr (s, None)
   \<and> Convert s None = Inr (s, None)
   \<and> Join s cs [] = Inr (s, None)
   \<and> (list_all (\<lambda>e. e = None) errs \<longrightarrow> Join s cs errs = Inr (s, None))
   \<and> StatusCode_of s None = Inr (s, 0)"
  by (simp add: Trace_err_def Join_def joinScan_def joinScan_fold_None)

theorem null_safe_witness:
  "list_all (\<lambda>e. e = None) [None, None :: err option]
   \<and> Join stateBoom [] [None, None] = Inr (stateBoom, None)
   \<and> Trace_err (\<lambda>s p a. ([], [])) stateBoom [] None [VInt 404] = Inr (stateBoom, None)"
  using null_safe [of "\<lambda>s p a. ([], [])" stateBoom "[]" "[VInt 404]" "[None, None]"] by simp

subsection \<open>The classification loop\<close>

lemma statusArgs_simps [simp]:
  "statusArgs [] = []"
  "statusArgs (VInt k # rest) = k # statusArgs rest"
  "statusArgs (VErr x # rest) = statusArgs rest"
  "statusArgs (VNil # rest) = statusArgs rest"
  "statusArgs (VBool b # rest) = statusArgs rest"
  "statusArgs (VFrames fs # rest) = statusArgs rest"
  "statusArgs (VStr t # rest) =
     (if length t = 32 \<and> isHex t then statusArgs rest else statusArgs (drop 1 rest))"
  by (simp_all add: statusArgs_def List.map_filter_simps)

lemma mergedArgs_simps [simp]:
  "mergedArgs [] = []"
  "mergedArgs (VInt k # rest) = mergedArgs rest"
  "mergedArgs (VErr (TracedPtr p) # rest) = p # mergedArgs rest"
  "mergedArgs (VErr (ErrorString i m) # rest) = mergedArgs rest"
  "mergedArgs (VErr (WrapError i m ws) # rest) = mergedArgs rest"
  "mergedArgs (VErr (JoinError i es) # rest) = mergedArgs rest"
  "mergedArgs (VNil # rest) = mergedArgs rest"
  "mergedArgs (VBool b # rest) = mergedArgs rest"
  "mergedArgs (VFrames fs # rest) = mergedArgs rest"
  "mergedArgs (VStr t # rest) =
     (if length t = 32 \<and> isHex t then mergedArgs rest else mergedArgs (drop 1 rest))"
  by (simp_all add: mergedArgs_def List.map_filter_simps)

lemma wrapCause_fst:
  "objs (fst (wrapCause fmt s e k)) = objs s"
  by (simp add: wrapCause_def Errorf_def split: option.splits prod.splits)

lemma wrapCause_snd:
  "StatusCode (snd (wrapCause fmt s e k)) = StatusCode e
   \<and> Trace (snd (wrapCause fmt s e k)) = Trace e
   \<and> Properties (snd (wrapCause fmt s e k)) = Properties e
   \<and> Stack (snd (wrapCause fmt s e k)) = Stack e
   \<and> Err (snd (wrapCause fmt s e k)) \<noteq> None"
  by (simp add: wrapCause_def Errorf_def split: option.splits prod.splits)

lemma wrapCause_fields:
  "wrapCause fmt s e k = (s1, e1) \<Longrightarrow>
   objs s1 = objs s \<and> StatusCode e1 = StatusCode e \<and> Trace e1 = Trace e
   \<and> Properties e1 = Properties e \<and> Stack e1 = Stack e \<and> Err e1 \<noteq> None"
  using wrapCause_fst [of fmt s e k] wrapCause_snd [of fmt s e k] by simp

lemma deref_cong_objs: "objs s' = objs s \<Longrightarrow> deref s' a = deref s a"
  by (simp add: deref_def)

text \<open>One turn of the loop, by the type of the argument.\<close>

lemma classifyArg_objs:
  "classifyArg fmt s e v rest = Inr (s', e', rest') \<Longrightarrow> objs s' = objs s"
proof (cases v)
  case (VErr k)
  obtain s1 e1 where w: "wrapCause fmt s e k = (s1, e1)" by (cases "wrapCause fmt s e k")
  assume "classifyArg fmt s e v rest = Inr (s', e', rest')"
  with VErr w have "s' = s1" by (cases k) (auto split: option.splits)
  with wrapCause_fields [OF w] show ?thesis by simp
qed (auto simp: stderrorsNew_def split: if_splits list.splits)

lemma classify_objs:
  "classify fmt s e a = Inr (s', e') \<Longrightarrow> objs s' = objs s"
proof (induction fmt s e a arbitrary: s' e' rule: classify.induct)
  case (1 fmt s e)
  then show ?case by simp
next
  case (2 fmt s e v rest)
  from "2.prems"(1) obtain s1 e1 rest1 where st: "classifyArg fmt s e v rest = Inr (s1, e1, rest1)"
    and c: "classify fmt s1 e1 rest1 = Inr (s', e')"
    by (auto split: sum.splits)
  from "2.IH" [OF st refl refl c] classifyArg_objs [OF st] show ?case by simp
qed

lemma classifyArg_rest:
  "classifyArg fmt s e v rest = Inr (s', e', rest') \<Longrightarrow>
   statusArgs rest' = statusArgs (v # rest) \<or> (\<exists>k. v = VInt k \<and> rest' = rest)"
proof (cases v)
  case (VErr k)
  obtain s1 e1 where w: "wrapCause fmt s e k = (s1, e1)" by (cases "wrapCause fmt s e k")
  assume "classifyArg fmt s e v rest = Inr (s', e', rest')"
  with VErr w have "rest' = rest" by (cases k) (auto split: option.splits)
  with VErr show ?thesis by simp
qed (auto simp: stderrorsNew_def split: if_splits list.splits)


lemma classifyArg_classified:
  "classifyArg fmt s e v rest = Inr (s', e', rest') \<Longrightarrow> classified (v # rest) = v # classified rest'"
proof (cases v)
  case (VErr k)
  obtain s1 e1 where w: "wrapCause fmt s e k = (s1, e1)" by (cases "wrapCause fmt s e k")
  assume "classifyArg fmt s e v rest = Inr (s', e', rest')"
  with VErr w have "rest' = rest" by (cases k) (auto split: option.splits)
  with VErr show ?thesis by simp
qed (auto simp: stderrorsNew_def split: if_splits list.splits)

lemma classifyArg_VErr:
  assumes "classifyArg fmt s e (VErr k) rest = Inr (s', e', rest')"
    and "wrapCause fmt s e k = (s1, e1)"
  shows "s' = s1 \<and> rest' = rest
       \<and> (case k of TracedPtr a \<Rightarrow> (\<exists>te. deref s a = Some te \<and> e' = mergeTraced e1 te)
           | _ \<Rightarrow> e' = e1)"
proof -
  have o: "\<And>a. deref s1 a = deref s a"
    using wrapCause_fields [OF assms(2)] by (simp add: deref_def)
  show ?thesis
  proof (cases k)
    case (TracedPtr a)
    with assms o [of a] show ?thesis by (cases "deref s a") simp_all
  qed (use assms in simp_all)
qed

lemma classifyArg_status:
  assumes "classifyArg fmt s e v rest = Inr (s', e', rest')"
  shows "(\<exists>k. v = VInt k \<and> StatusCode e' = k)
       \<or> (\<exists>a te. v = VErr (TracedPtr a) \<and> deref s a = Some te
            \<and> StatusCode e' = (if StatusCode e = 0 then StatusCode te else StatusCode e))
       \<or> ((\<forall>k. v \<noteq> VInt k) \<and> (\<forall>a. v \<noteq> VErr (TracedPtr a)) \<and> StatusCode e' = StatusCode e)"
proof (cases v)
  case (VInt k)
  with assms have "StatusCode e' = k"
    by (cases "Err e = None") (auto simp: stderrorsNew_def)
  with VInt show ?thesis by simp
next
  case (VErr k)
  obtain s1 e1 where w: "wrapCause fmt s e k = (s1, e1)" by (cases "wrapCause fmt s e k")
  note f = wrapCause_fields [OF w]
  note r = classifyArg_VErr [OF assms [unfolded VErr] w]
  show ?thesis
  proof (cases k)
    case (TracedPtr a)
    with r obtain te where "deref s a = Some te" and "e' = mergeTraced e1 te" by auto
    with VErr TracedPtr f show ?thesis by (simp add: mergeTraced_def Let_def)
  next
    case (ErrorString i m)
    with r f VErr show ?thesis by simp
  next
    case (WrapError i m ws)
    with r f VErr show ?thesis by simp
  next
    case (JoinError i es)
    with r f VErr show ?thesis by simp
  qed
next
  case (VStr k)
  with assms have "StatusCode e' = StatusCode e"
    by (cases "length k = 32 \<and> isHex k"; cases rest) auto
  with VStr show ?thesis by simp
next
  case VNil
  with assms show ?thesis by auto
next
  case (VBool b)
  with assms show ?thesis by auto
next
  case (VFrames fs)
  with assms show ?thesis by auto
qed

lemma statusArgs_step:
  "classified (v # rest) = v # classified rest' \<Longrightarrow>
   statusArgs (v # rest) = (case v of VInt k \<Rightarrow> [k] | _ \<Rightarrow> []) @ statusArgs rest'"
  by (cases v) (simp_all add: statusArgs_def List.map_filter_simps)

lemma mergedArgs_step:
  "classified (v # rest) = v # classified rest' \<Longrightarrow>
   mergedArgs (v # rest) = (case v of VErr (TracedPtr a) \<Rightarrow> [a] | _ \<Rightarrow> []) @ mergedArgs rest'"
  by (cases v) (simp_all add: mergedArgs_def List.map_filter_simps split: err.splits)

lemma classify_keeps_status:
  "classify fmt s e a = Inr (s', e') \<Longrightarrow> statusArgs a = [] \<Longrightarrow> StatusCode e \<noteq> 0 \<Longrightarrow>
   StatusCode e' = StatusCode e"
proof (induction fmt s e a arbitrary: s' e' rule: classify.induct)
  case (1 fmt s e)
  then show ?case by simp
next
  case (2 fmt s e v rest)
  from "2.prems"(1) obtain s1 e1 rest1 where st: "classifyArg fmt s e v rest = Inr (s1, e1, rest1)"
    and c: "classify fmt s1 e1 rest1 = Inr (s', e')"
    by (auto split: sum.splits)
  note cl = classifyArg_classified [OF st]
  from "2.prems"(2) statusArgs_step [OF cl] have noint: "\<forall>k. v \<noteq> VInt k" and r: "statusArgs rest1 = []"
    by (auto split: val.splits)
  from classifyArg_status [OF st] noint "2.prems"(3) have e1: "StatusCode e1 = StatusCode e"
    by auto
  from "2.IH" [OF st refl refl c r] e1 "2.prems"(3) show ?case by simp
qed

lemma classify_no_status:
  "classify fmt s e a = Inr (s', e') \<Longrightarrow> statusArgs a = [] \<Longrightarrow> mergedArgs a = [] \<Longrightarrow>
   StatusCode e' = StatusCode e"
proof (induction fmt s e a arbitrary: s' e' rule: classify.induct)
  case (1 fmt s e)
  then show ?case by simp
next
  case (2 fmt s e v rest)
  from "2.prems"(1) obtain s1 e1 rest1 where st: "classifyArg fmt s e v rest = Inr (s1, e1, rest1)"
    and c: "classify fmt s1 e1 rest1 = Inr (s', e')"
    by (auto split: sum.splits)
  note cl = classifyArg_classified [OF st]
  from "2.prems"(2) statusArgs_step [OF cl] have noint: "\<forall>k. v \<noteq> VInt k" and r: "statusArgs rest1 = []"
    by (auto split: val.splits)
  from "2.prems"(3) mergedArgs_step [OF cl] have noptr: "\<forall>a. v \<noteq> VErr (TracedPtr a)"
    and m: "mergedArgs rest1 = []"
    by (auto split: val.splits err.splits)
  from classifyArg_status [OF st] noint noptr have e1: "StatusCode e1 = StatusCode e"
    by auto
  from "2.IH" [OF st refl refl c r m] e1 show ?case by simp
qed

lemma classify_last_status:
  "classify fmt s e a = Inr (s', e') \<Longrightarrow> statusArgs a \<noteq> [] \<Longrightarrow> last (statusArgs a) \<noteq> 0 \<Longrightarrow>
   StatusCode e' = last (statusArgs a)"
proof (induction fmt s e a arbitrary: s' e' rule: classify.induct)
  case (1 fmt s e)
  then show ?case by simp
next
  case (2 fmt s e v rest)
  from "2.prems"(1) obtain s1 e1 rest1 where st: "classifyArg fmt s e v rest = Inr (s1, e1, rest1)"
    and c: "classify fmt s1 e1 rest1 = Inr (s', e')"
    by (auto split: sum.splits)
  note cl = classifyArg_classified [OF st]
  note sa = statusArgs_step [OF cl]
  show ?case
  proof (cases "statusArgs rest1 = []")
    case True
    with sa "2.prems"(2) obtain k where v: "v = VInt k" and l: "statusArgs (v # rest) = [k]"
      by (auto split: val.splits)
    from classifyArg_status [OF st] v have "StatusCode e1 = k" by simp
    with classify_keeps_status [OF c True] l "2.prems"(3) show ?thesis by simp
  next
    case False
    with sa have "last (statusArgs (v # rest)) = last (statusArgs rest1)" by simp
    with "2.IH" [OF st refl refl c False] "2.prems"(3) show ?thesis by simp
  qed
qed

lemma classify_last_zero:
  "classify fmt s e a = Inr (s', e') \<Longrightarrow> statusArgs a \<noteq> [] \<Longrightarrow> last (statusArgs a) = 0 \<Longrightarrow>
   mergedArgs a = [] \<Longrightarrow> StatusCode e' = 0"
proof (induction fmt s e a arbitrary: s' e' rule: classify.induct)
  case (1 fmt s e)
  then show ?case by simp
next
  case (2 fmt s e v rest)
  from "2.prems"(1) obtain s1 e1 rest1 where st: "classifyArg fmt s e v rest = Inr (s1, e1, rest1)"
    and c: "classify fmt s1 e1 rest1 = Inr (s', e')"
    by (auto split: sum.splits)
  note cl = classifyArg_classified [OF st]
  note sa = statusArgs_step [OF cl]
  from "2.prems"(4) mergedArgs_step [OF cl] have m: "mergedArgs rest1 = []" by simp
  show ?case
  proof (cases "statusArgs rest1 = []")
    case True
    with sa "2.prems"(2) obtain k where v: "v = VInt k" and l: "statusArgs (v # rest) = [k]"
      by (auto split: val.splits)
    from classifyArg_status [OF st] v have "StatusCode e1 = k" by simp
    with classify_no_status [OF c True m] l "2.prems"(3) show ?thesis by simp
  next
    case False
    with sa have "last (statusArgs (v # rest)) = last (statusArgs rest1)" by simp
    with "2.IH" [OF st refl refl c False _ m] "2.prems"(3) show ?thesis by simp
  qed
qed


subsection \<open>traceCaller and New\<close>

lemma store_same: "deref s a = Some te \<Longrightarrow> store s a te = s"
  by (auto simp: deref_def store_def split: if_splits)

lemma store_store: "store (store s a x) a y = store s a y"
  by (simp add: store_def)

lemma length_store: "length (objs (store s a x)) = length (objs s)"
  by (simp add: store_def)

lemma traceCaller_traced:
  assumes "deref s a = Some te"
  shows "traceCaller s cs (Some (TracedPtr a)) = Inr (store s a (traced cs te), Some (TracedPtr a))"
proof -
  from assms have l: "a < length (objs s)" by (rule deref_Some_less)
  show ?thesis
  proof (cases "StatusCode te = 0")
    case True
    with assms l show ?thesis
      by (cases "traceLoop cs (Suc 0)")
         (simp_all add: traceCaller_def traced_def deref_store_same store_store)
  next
    case False
    with assms l show ?thesis
      by (cases "traceLoop cs (Suc 0)")
         (simp_all add: traceCaller_def traced_def store_same)
  qed
qed

lemma traceCaller_foreign:
  assumes "\<forall>a. e \<noteq> TracedPtr a"
  shows "traceCaller s cs (Some e) =
     Inr (s\<lparr>objs := objs s @ [traced cs (emptyTraced\<lparr>Err := Some e, StatusCode := 500\<rparr>)]\<rparr>,
          Some (TracedPtr (length (objs s))))"
proof -
  let ?te = "emptyTraced\<lparr>Err := Some e, StatusCode := 500\<rparr>"
  let ?s' = "s\<lparr>objs := objs s @ [?te]\<rparr>"
  from assms have c: "Convert s (Some e) = Inr (?s', Some (length (objs s)))"
    by (cases e) (simp_all add: alloc_def)
  have d: "deref ?s' (length (objs s)) = Some ?te" by (simp add: deref_def)
  show ?thesis
    by (cases "traceLoop cs (Suc 0)")
       (simp_all add: traceCaller_def c d traced_def store_def)
qed

lemma countPctPct_le: "2 * countPctPct p \<le> countPct p"
  by (induction p rule: countPctPct.induct) (auto simp: countPct_def)

lemma pctArgs_nonneg: "0 \<le> pctArgs p a"
  using countPctPct_le [of p] by (simp add: pctArgs_def)

lemma newInit_fields:
  "newInit fmt s p fa = (s0, e0) \<Longrightarrow>
   objs s0 = objs s \<and> StatusCode e0 = 0 \<and> Trace e0 = [] \<and> Properties e0 = Map.empty
   \<and> Stack e0 = None \<and> (Err e0 = None \<longleftrightarrow> p = [])"
  by (auto simp: newInit_def Errorf_def emptyTraced_def split: if_splits prod.splits)

lemma newDefaults_fields:
  "newDefaults s e = (s2, e2) \<Longrightarrow>
   objs s2 = objs s \<and> StatusCode e2 = (if StatusCode e = 0 then 500 else StatusCode e)
   \<and> Trace e2 = Trace e \<and> Properties e2 = Properties e \<and> Stack e2 = Stack e \<and> Err e2 \<noteq> None"
  by (auto simp: newDefaults_def stderrorsNew_def split: if_splits prod.splits)

lemma New_result:
  assumes "New fmt s cs p a = Inr (s', r)"
  shows "\<exists>s0 e0 s1 e1 s2 e2.
       newInit fmt s p (take (nat (pctArgs p a)) a) = (s0, e0)
     \<and> classify fmt s0 e0 (drop (nat (pctArgs p a)) a) = Inr (s1, e1)
     \<and> newDefaults s1 e1 = (s2, e2)
     \<and> r = Some (TracedPtr (length (objs s)))
     \<and> deref s' (length (objs s)) = Some (traced cs e2)
     \<and> (\<forall>b x. deref s b = Some x \<longrightarrow> deref s' b = Some x)"
proof -
  let ?n = "nat (pctArgs p a)"
  obtain s0 e0 where st: "newInit fmt s p (take ?n a) = (s0, e0)"
    by (cases "newInit fmt s p (take ?n a)")
  have n: "\<not> pctArgs p a < 0" using pctArgs_nonneg [of p a] by simp
  from assms st n obtain s1 e1 where c: "classify fmt s0 e0 (drop ?n a) = Inr (s1, e1)"
    by (cases "classify fmt s0 e0 (drop ?n a)") (auto simp: New_def Let_def)
  obtain s2 e2 where fin: "newDefaults s1 e1 = (s2, e2)" by (cases "newDefaults s1 e1")
  let ?a = "length (objs s2)"
  let ?s3 = "s2\<lparr>objs := objs s2 @ [e2]\<rparr>"
  have al: "alloc s2 e2 = (?s3, ?a)" by (simp add: alloc_def)
  from assms st n c fin al have tc: "traceCaller ?s3 cs (Some (TracedPtr ?a)) = Inr (s', r)"
    by (simp add: New_def Let_def)
  have d3: "deref ?s3 ?a = Some e2" by (simp add: deref_def)
  from tc traceCaller_traced [OF d3, of cs]
  have s': "s' = store ?s3 ?a (traced cs e2)" and r: "r = Some (TracedPtr ?a)" by simp_all
  have len: "length (objs s2) = length (objs s)"
    using newInit_fields [OF st] classify_objs [OF c] newDefaults_fields [OF fin] by simp
  have o: "objs s2 = objs s"
    using newInit_fields [OF st] classify_objs [OF c] newDefaults_fields [OF fin] by simp
  have "deref s' ?a = Some (traced cs e2)"
    by (simp add: s' deref_def store_def)
  moreover have "\<forall>b x. deref s b = Some x \<longrightarrow> deref s' b = Some x"
    by (auto simp: s' deref_def store_def o nth_append split: if_splits)
  ultimately show ?thesis using st c fin r len by auto
qed


lemma traceLoop_stackMain: "traceLoop stackMain (Suc 0) = Some frameMain"
  by (simp add: traceLoop.simps runtimeTrace_def stackMain_def hidden_def lastSegment_def frameMain_def)

lemmas eval_defs = New_def pctArgs_def countPct_def newInit_def newDefaults_def Errorf_def stderrorsNew_def
  plainFormat_def List.map_filter_def emptyTraced_def alloc_def traceCaller_def deref_def
  traceLoop_stackMain store_def appendFrame_def resultOf_def wrapCause_def mergeTraced_def
  zeroTrace_def isHex_def byte_def Let_def

lemma traced_fields:
  "StatusCode (traced cs te) = (if StatusCode te = 0 then 500 else StatusCode te)
   \<and> Trace (traced cs te) = Trace te \<and> Properties (traced cs te) = Properties te
   \<and> Err (traced cs te) = Err te
   \<and> Stack (traced cs te) =
       (case traceLoop cs 1 of None \<Rightarrow> Stack te
        | Some fr \<Rightarrow> Some ((case Stack te of None \<Rightarrow> [] | Some fs \<Rightarrow> fs) @ [fr]))"
  by (simp add: traced_def appendFrame_def Let_def split: option.splits)

lemma StatusCode_of_traced:
  "deref s a = Some te \<Longrightarrow> StatusCode te \<noteq> 0 \<Longrightarrow>
   StatusCode_of s (Some (TracedPtr a)) = Inr (s, StatusCode te)"
  by simp

text \<open>
  C1, as the code has it.  The status code that \<^verbatim>\<open>New\<close> (and \<^verbatim>\<open>Trace\<close>, which is
  \<^verbatim>\<open>New\<close> with an empty pattern) stores is the last integer among the arguments
  classified as status codes, that is among those left after the pattern took
  its operands and not taken as the value of a property key, when that integer
  is not zero.  It is 500 when no augmented error is merged and no such integer
  is given or the last one is zero.  \<^verbatim>\<open>StatusCode\<close> returns the stored value.
\<close>

theorem New_status_code:
  assumes "New fmt s cs p a = Inr (s', r)"
  shows "\<exists>te. resultOf (Inr (s', r)) = Some te
     \<and> (statusArgs (drop (nat (pctArgs p a)) a) \<noteq> []
          \<and> last (statusArgs (drop (nat (pctArgs p a)) a)) \<noteq> 0
        \<longrightarrow> StatusCode te = last (statusArgs (drop (nat (pctArgs p a)) a)))
     \<and> (mergedArgs (drop (nat (pctArgs p a)) a) = []
          \<and> (statusArgs (drop (nat (pctArgs p a)) a) = []
              \<or> last (statusArgs (drop (nat (pctArgs p a)) a)) = 0)
        \<longrightarrow> StatusCode te = 500)
     \<and> StatusCode_of s' r = Inr (s', StatusCode te)"
proof -
  let ?rest = "drop (nat (pctArgs p a)) a"
  from New_result [OF assms] obtain s0 e0 s1 e1 s2 e2 where
    st: "newInit fmt s p (take (nat (pctArgs p a)) a) = (s0, e0)"
    and c: "classify fmt s0 e0 ?rest = Inr (s1, e1)"
    and fin: "newDefaults s1 e1 = (s2, e2)"
    and r: "r = Some (TracedPtr (length (objs s)))"
    and d: "deref s' (length (objs s)) = Some (traced cs e2)"
    by blast
  let ?te = "traced cs e2"
  note i = newInit_fields [OF st]
  note f = newDefaults_fields [OF fin]
  note t = traced_fields [of cs e2]
  have sc: "StatusCode ?te = (if StatusCode e1 = 0 then 500 else StatusCode e1)"
    using f t by simp
  then have nz: "StatusCode ?te \<noteq> 0" by simp
  have 1: "resultOf (Inr (s', r)) = Some ?te" using r d by (simp add: resultOf_def)
  have 2: "StatusCode ?te = last (statusArgs ?rest)"
    if "statusArgs ?rest \<noteq> []" "last (statusArgs ?rest) \<noteq> 0"
    using classify_last_status [OF c that] that sc by simp
  have 3: "StatusCode ?te = 500"
    if "mergedArgs ?rest = []" "statusArgs ?rest = [] \<or> last (statusArgs ?rest) = 0"
  proof (cases "statusArgs ?rest = []")
    case True
    from classify_no_status [OF c True that(1)] i sc show ?thesis by simp
  next
    case False
    with that have "last (statusArgs ?rest) = 0" by simp
    from classify_last_zero [OF c False this that(1)] sc show ?thesis by simp
  qed
  have 4: "StatusCode_of s' r = Inr (s', StatusCode ?te)"
    unfolding r using d nz by (rule StatusCode_of_traced)
  from 1 2 3 4 show ?thesis by blast
qed


text \<open>
  C1 as stated fails: \<^verbatim>\<open>New("msg", 0)\<close> stores 500 and not the integer 0;
  \<^verbatim>\<open>New("code %d", 404)\<close> gives its only integer to the pattern and stores 500;
  \<^verbatim>\<open>Trace\<close> of an augmented error with status 404 and no integer stores 404.
\<close>

theorem New_status_code_counterexample:
  "map_option StatusCode (resultOf (New plainFormat state0 stackMain ''msg'' [VInt 0])) = Some 500
   \<and> map_option StatusCode (resultOf (New plainFormat state0 stackMain ''code %d'' [VInt 404])) = Some 500
   \<and> map_option StatusCode
        (resultOf (Trace_err plainFormat state404 stackMain (Some (TracedPtr 0)) [])) = Some 404"
  by (simp add: eval_defs state0_def state404_def Trace_err_def boom_def)

lemma New_bad_input:
  "New plainFormat state0 stackMain ''bad input'' [VInt 400] =
     Inr (\<lparr>objs = [\<lparr>Err = Some (ErrorString 0 ''bad input''), Stack = Some [frameMain],
                      StatusCode = 400, Trace = [], Properties = Map.empty\<rparr>], nextid = 1\<rparr>,
          Some (TracedPtr 0))"
  by (simp add: eval_defs state0_def)

theorem New_status_code_witness:
  "New plainFormat state0 stackMain ''bad input'' [VInt 400] =
     Inr (\<lparr>objs = [\<lparr>Err = Some (ErrorString 0 ''bad input''), Stack = Some [frameMain],
                      StatusCode = 400, Trace = [], Properties = Map.empty\<rparr>], nextid = 1\<rparr>,
          Some (TracedPtr 0))
   \<and> statusArgs (drop (nat (pctArgs ''bad input'' [VInt 400])) [VInt 400]) = [400]
   \<and> StatusCode_of \<lparr>objs = [\<lparr>Err = Some (ErrorString 0 ''bad input''), Stack = Some [frameMain],
                      StatusCode = 400, Trace = [], Properties = Map.empty\<rparr>], nextid = 1\<rparr>
         (Some (TracedPtr 0)) = Inr (\<lparr>objs = [\<lparr>Err = Some (ErrorString 0 ''bad input''), Stack = Some [frameMain],
                      StatusCode = 400, Trace = [], Properties = Map.empty\<rparr>], nextid = 1\<rparr>, 400)"
proof -
  have a: "statusArgs (drop (nat (pctArgs ''bad input'' [VInt 400])) [VInt 400]) = [400]"
    by (simp add: pctArgs_def countPct_def)
  from New_status_code [OF New_bad_input] a New_bad_input show ?thesis
    by (auto simp: resultOf_def deref_def)
qed

subsection \<open>Merging an augmented error\<close>

lemma classifyArg_merge:
  assumes "classifyArg fmt s e (VErr (TracedPtr a)) rest = Inr (s1, e1, rest1)"
  shows "\<exists>te. deref s a = Some te
        \<and> StatusCode e1 = (if StatusCode e = 0 then StatusCode te else StatusCode e)
        \<and> Trace e1 = (if Trace e = [] \<or> Trace e = zeroTrace then Trace te else Trace e)
        \<and> Properties e1 = Properties e ++ Properties te
        \<and> Stack e1 = Stack te \<and> rest1 = rest"
proof -
  obtain s0 e0 where w: "wrapCause fmt s e (TracedPtr a) = (s0, e0)"
    by (cases "wrapCause fmt s e (TracedPtr a)")
  note f = wrapCause_fields [OF w]
  from classifyArg_VErr [OF assms w] obtain te where d: "deref s a = Some te"
    and e1: "e1 = mergeTraced e0 te" and r: "rest1 = rest" by auto
  from f have "StatusCode (mergeTraced e0 te) = (if StatusCode e = 0 then StatusCode te else StatusCode e)"
    and "Trace (mergeTraced e0 te) = (if Trace e = [] \<or> Trace e = zeroTrace then Trace te else Trace e)"
    and "Properties (mergeTraced e0 te) = Properties e ++ Properties te"
    and "Stack (mergeTraced e0 te) = Stack te"
    by (simp_all add: mergeTraced_def Let_def)
  with d e1 r show ?thesis by simp
qed

text \<open>
  C2, as the code has it.  The turn of the loop on an argument that is a
  \<^verbatim>\<open>*TracedError\<close> copies its status code only when the status code of the error
  under construction is zero, copies its trace identifier only when that of the
  error under construction is empty or the all-zero placeholder, adds its
  properties to the bag (its values win on a shared key) and takes its stack in
  place of the stack so far.  A non-zero integer classified before the merged
  error wins over the merged status code, and a non-zero integer classified
  after it overwrites it.
\<close>

theorem merge_augmented:
  "(classifyArg fmt s e (VErr (TracedPtr a)) rest = Inr (sa, ea, resta) \<longrightarrow>
      (\<exists>te. deref s a = Some te
        \<and> StatusCode ea = (if StatusCode e = 0 then StatusCode te else StatusCode e)
        \<and> Trace ea = (if Trace e = [] \<or> Trace e = zeroTrace then Trace te else Trace e)
        \<and> Properties ea = Properties e ++ Properties te
        \<and> Stack ea = Stack te \<and> resta = rest))
   \<and> (\<not> isl (New fmt s cs p args) \<and> k \<noteq> 0 \<and> statusArgs others = []
        \<and> (drop (nat (pctArgs p args)) args = VInt k # VErr (TracedPtr b) # others
            \<or> drop (nat (pctArgs p args)) args = VErr (TracedPtr b) # VInt k # others)
      \<longrightarrow> map_option StatusCode (resultOf (New fmt s cs p args)) = Some k)"
proof (intro conjI impI)
  assume "classifyArg fmt s e (VErr (TracedPtr a)) rest = Inr (sa, ea, resta)"
  then show "\<exists>te. deref s a = Some te
        \<and> StatusCode ea = (if StatusCode e = 0 then StatusCode te else StatusCode e)
        \<and> Trace ea = (if Trace e = [] \<or> Trace e = zeroTrace then Trace te else Trace e)
        \<and> Properties ea = Properties e ++ Properties te
        \<and> Stack ea = Stack te \<and> resta = rest"
    by (rule classifyArg_merge)
next
  let ?rest = "drop (nat (pctArgs p args)) args"
  assume h: "\<not> isl (New fmt s cs p args) \<and> k \<noteq> 0 \<and> statusArgs others = []
        \<and> (?rest = VInt k # VErr (TracedPtr b) # others \<or> ?rest = VErr (TracedPtr b) # VInt k # others)"
  then obtain s' r where n: "New fmt s cs p args = Inr (s', r)"
    by (cases "New fmt s cs p args") auto
  from h have k: "k \<noteq> 0" by simp
  from h have sa: "statusArgs ?rest = [k]" by auto
  from New_result [OF n] obtain s0 e0 s2 e2 s3 e3 where
    c: "classify fmt s0 e0 ?rest = Inr (s2, e2)"
    and fin: "newDefaults s2 e2 = (s3, e3)"
    and r: "r = Some (TracedPtr (length (objs s)))"
    and d: "deref s' (length (objs s)) = Some (traced cs e3)"
    by blast
  from classify_last_status [OF c] sa k have "StatusCode e2 = k" by simp
  with newDefaults_fields [OF fin] traced_fields [of cs e3] k
  have "StatusCode (traced cs e3) = k" by simp
  with r d n show "map_option StatusCode (resultOf (New fmt s cs p args)) = Some k"
    by (simp add: resultOf_def)
qed

lemma eval_pct: "pctArgs ''m'' a = 0"
  by (simp add: pctArgs_def countPct_def)


text \<open>
  C2 as stated fails for the integer 0: in \<^verbatim>\<open>New("m", 0, e)\<close> with \<open>e\<close> an
  augmented error of status 404, the integer comes first and the result has
  status 404.
\<close>

theorem merge_augmented_counterexample:
  "map_option StatusCode
     (resultOf (New plainFormat state404 stackMain ''m'' [VInt 0, VErr (TracedPtr 0)])) = Some 404"
  by (simp add: eval_defs state404_def boom_def)


theorem merge_augmented_witness:
  "classifyArg plainFormat state404 emptyTraced (VErr (TracedPtr 0)) [] =
     Inr (state404, emptyTraced\<lparr>Err := Some (TracedPtr 0), StatusCode := 404\<rparr>, [])
   \<and> deref state404 0 = Some (emptyTraced\<lparr>Err := Some boom, StatusCode := 404\<rparr>)
   \<and> \<not> isl (New plainFormat state404 stackMain ''m'' [VInt 400, VErr (TracedPtr 0)])
   \<and> map_option StatusCode
       (resultOf (New plainFormat state404 stackMain ''m'' [VInt 400, VErr (TracedPtr 0)])) = Some 400
   \<and> \<not> isl (New plainFormat state404 stackMain ''m'' [VErr (TracedPtr 0), VInt 400])
   \<and> map_option StatusCode
       (resultOf (New plainFormat state404 stackMain ''m'' [VErr (TracedPtr 0), VInt 400])) = Some 400"
proof -
  have 1: "classifyArg plainFormat state404 emptyTraced (VErr (TracedPtr 0)) [] =
     Inr (state404, emptyTraced\<lparr>Err := Some (TracedPtr 0), StatusCode := 404\<rparr>, [])"
    by (simp add: eval_defs state404_def)
  have 2: "\<not> isl (New plainFormat state404 stackMain ''m'' [VInt 400, VErr (TracedPtr 0)])"
    by (simp add: eval_defs state404_def)
  have 3: "\<not> isl (New plainFormat state404 stackMain ''m'' [VErr (TracedPtr 0), VInt 400])"
    by (simp add: eval_defs state404_def)
  have 4: "drop (nat (pctArgs ''m'' a)) a = a" for a by (simp add: eval_pct)
  have 5: "deref state404 0 = Some (emptyTraced\<lparr>Err := Some boom, StatusCode := 404\<rparr>)"
    by (simp add: deref_def state404_def)
  from merge_augmented [where fmt = plainFormat and s = state404 and e = emptyTraced and a = 0
      and rest = "[]" and sa = state404
      and ea = "emptyTraced\<lparr>Err := Some (TracedPtr 0), StatusCode := 404\<rparr>" and resta = "[]"
      and cs = stackMain and p = "''m''" and args = "[VInt 400, VErr (TracedPtr 0)]" and k = 400
      and others = "[]" and b = 0]
    merge_augmented [where fmt = plainFormat and s = state404 and e = emptyTraced and a = 0
      and rest = "[]" and sa = state404
      and ea = "emptyTraced\<lparr>Err := Some (TracedPtr 0), StatusCode := 404\<rparr>" and resta = "[]"
      and cs = stackMain and p = "''m''" and args = "[VErr (TracedPtr 0), VInt 400]" and k = 400
      and others = "[]" and b = 0]
    1 2 3 4 5
  show ?thesis by simp
qed

subsection \<open>Join\<close>

lemma nonNil_simps [simp]:
  "nonNil [] = []" "nonNil (None # es) = nonNil es" "nonNil (Some x # es) = x # nonNil es"
  by (simp_all add: nonNil_def List.map_filter_simps)

lemma joinScan_fold:
  "fold (\<lambda>e (er, n). case e of None \<Rightarrow> (er, n) | Some x \<Rightarrow> (Some x, Suc n)) errs (er, n) =
     ((case nonNil errs of [] \<Rightarrow> er | x # xs \<Rightarrow> Some (last (x # xs))),
      n + length (nonNil errs))"
proof (induction errs arbitrary: er n)
  case Nil
  show ?case by simp
next
  case (Cons e errs)
  show ?case
  proof (cases e)
    case None
    with Cons show ?thesis by simp
  next
    case (Some x)
    with Cons show ?thesis
      by (cases "nonNil errs") simp_all
  qed
qed

lemma joinScan_eq:
  "joinScan errs =
     ((case nonNil errs of [] \<Rightarrow> None | x # xs \<Rightarrow> Some (last (x # xs))),
      length (nonNil errs))"
  by (simp add: joinScan_def joinScan_fold)

lemma Join_none: "nonNil errs = [] \<Longrightarrow> Join s cs errs = Inr (s, None)"
  by (simp add: Join_def joinScan_eq)

lemma Join_one: "nonNil errs = [x] \<Longrightarrow> Join s cs errs = traceCaller s cs (Some x)"
  by (simp add: Join_def joinScan_eq)

lemma Join_many:
  "nonNil errs = x # y # zs \<Longrightarrow>
   Join s cs errs =
     traceCaller (s\<lparr>nextid := Suc (nextid s)\<rparr>) cs (Some (JoinError (nextid s) (x # y # zs)))"
  by (simp add: Join_def joinScan_eq stderrorsJoin_def)

subsection \<open>The range of the status code\<close>

lemma nonnegStore_deref: "nonnegStore s \<Longrightarrow> deref s a = Some te \<Longrightarrow> 0 \<le> StatusCode te"
  by (auto simp: nonnegStore_def deref_def list_all_length split: if_splits)

lemma nonnegStore_objs: "objs s' = objs s \<Longrightarrow> nonnegStore s' = nonnegStore s"
  by (simp add: nonnegStore_def)

lemma classify_nonneg:
  "classify fmt s e a = Inr (s', e') \<Longrightarrow> 0 \<le> StatusCode e \<Longrightarrow> nonnegStore s \<Longrightarrow>
   list_all (\<lambda>k. 0 \<le> k) (statusArgs a) \<Longrightarrow> 0 \<le> StatusCode e'"
proof (induction fmt s e a arbitrary: s' e' rule: classify.induct)
  case (1 fmt s e)
  then show ?case by simp
next
  case (2 fmt s e v rest)
  from "2.prems"(1) obtain s1 e1 rest1 where st: "classifyArg fmt s e v rest = Inr (s1, e1, rest1)"
    and c: "classify fmt s1 e1 rest1 = Inr (s', e')"
    by (auto split: sum.splits)
  note sa = statusArgs_step [OF classifyArg_classified [OF st]]
  from sa "2.prems"(4) have r: "list_all (\<lambda>k. 0 \<le> k) (statusArgs rest1)" by simp
  have n1: "nonnegStore s1"
    using nonnegStore_objs [OF classifyArg_objs [OF st]] "2.prems"(3) by simp
  from classifyArg_status [OF st] have "0 \<le> StatusCode e1"
  proof (elim disjE exE conjE)
    fix k assume "v = VInt k" "StatusCode e1 = k"
    with sa "2.prems"(4) show ?thesis by simp
  next
    fix a te assume "deref s a = Some te"
      "StatusCode e1 = (if StatusCode e = 0 then StatusCode te else StatusCode e)"
    with nonnegStore_deref [OF "2.prems"(3)] "2.prems"(2) show ?thesis by simp
  next
    assume "StatusCode e1 = StatusCode e"
    with "2.prems"(2) show ?thesis by simp
  qed
  from "2.IH" [OF st refl refl c this n1 r] show ?case .
qed

lemma nonnegStore_store:
  "nonnegStore s \<Longrightarrow> 0 \<le> StatusCode x \<Longrightarrow> nonnegStore (store s a x)"
proof -
  assume a: "nonnegStore s" and x: "0 \<le> StatusCode x"
  have "0 \<le> StatusCode ((objs s)[a := x] ! n)" if "n < length (objs s)" for n
    using a x that by (cases "n = a") (simp_all add: nonnegStore_def list_all_length)
  then show ?thesis by (simp add: nonnegStore_def store_def list_all_length)
qed

lemma nonnegStore_append:
  "nonnegStore s \<Longrightarrow> 0 \<le> StatusCode x \<Longrightarrow> nonnegStore (s\<lparr>objs := objs s @ [x]\<rparr>)"
  by (simp add: nonnegStore_def)

lemma traced_positive: "0 \<le> StatusCode te \<Longrightarrow> 0 < StatusCode (traced cs te)"
  using traced_fields [of cs te] by simp

lemma traceCaller_positive:
  assumes "traceCaller s cs (Some x) = Inr (s', r)" and "nonnegStore s"
  shows "\<exists>a te. r = Some (TracedPtr a) \<and> deref s' a = Some te \<and> 0 < StatusCode te
           \<and> nonnegStore s'"
proof (cases "\<exists>a. x = TracedPtr a")
  case True
  then obtain a where x: "x = TracedPtr a" by blast
  from assms(1) x obtain te where d: "deref s a = Some te"
    by (cases "deref s a") (simp_all add: traceCaller_def)
  from assms(1) x traceCaller_traced [OF d, of cs]
  have s': "s' = store s a (traced cs te)" and r: "r = Some (TracedPtr a)" by simp_all
  from nonnegStore_deref [OF assms(2) d] have p: "0 < StatusCode (traced cs te)"
    by (rule traced_positive)
  from d have "a < length (objs s)" by (rule deref_Some_less)
  then have "deref s' a = Some (traced cs te)" by (simp add: s' deref_store_same)
  moreover from p assms(2) have "nonnegStore s'" by (simp add: s' nonnegStore_store)
  ultimately show ?thesis using r p by blast
next
  case False
  then have f: "\<forall>a. x \<noteq> TracedPtr a" by blast
  let ?te = "traced cs (emptyTraced\<lparr>Err := Some x, StatusCode := 500\<rparr>)"
  from assms(1) traceCaller_foreign [OF f, of s cs]
  have s': "s' = s\<lparr>objs := objs s @ [?te]\<rparr>" and r: "r = Some (TracedPtr (length (objs s)))"
    by simp_all
  have p: "0 < StatusCode ?te" by (rule traced_positive) simp
  have "deref s' (length (objs s)) = Some ?te" by (simp add: s' deref_def)
  moreover from p assms(2) have "nonnegStore s'" by (simp add: s' nonnegStore_append)
  ultimately show ?thesis using r p by blast
qed

lemma Join_cases:
  assumes "Join s cs errs = Inr (s', r)"
  shows "(nonNil errs = [] \<and> s' = s \<and> r = None)
       \<or> (\<exists>x. nonNil errs = [x] \<and> traceCaller s cs (Some x) = Inr (s', r))
       \<or> (\<exists>x y zs. nonNil errs = x # y # zs
            \<and> traceCaller (s\<lparr>nextid := Suc (nextid s)\<rparr>) cs
                 (Some (JoinError (nextid s) (x # y # zs))) = Inr (s', r))"
proof (cases "nonNil errs")
  case Nil
  with assms Join_none [OF Nil, of s cs] show ?thesis by simp
next
  case (Cons x xs)
  show ?thesis
  proof (cases xs)
    case Nil
    with Cons have "nonNil errs = [x]" by simp
    with assms Join_one [OF this, of s cs] show ?thesis by simp
  next
    case (Cons y zs)
    with \<open>nonNil errs = x # xs\<close> have "nonNil errs = x # y # zs" by simp
    with assms Join_many [OF this, of s cs] show ?thesis by simp
  qed
qed

lemma New_objs:
  assumes "New fmt s cs p a = Inr (s', r)"
  shows "\<exists>s0 e0 s1 e1 s2 e2.
       newInit fmt s p (take (nat (pctArgs p a)) a) = (s0, e0)
     \<and> classify fmt s0 e0 (drop (nat (pctArgs p a)) a) = Inr (s1, e1)
     \<and> newDefaults s1 e1 = (s2, e2)
     \<and> objs s' = objs s @ [traced cs e2]"
proof -
  let ?n = "nat (pctArgs p a)"
  obtain s0 e0 where st: "newInit fmt s p (take ?n a) = (s0, e0)"
    by (cases "newInit fmt s p (take ?n a)")
  have n: "\<not> pctArgs p a < 0" using pctArgs_nonneg [of p a] by simp
  from assms st n obtain s1 e1 where c: "classify fmt s0 e0 (drop ?n a) = Inr (s1, e1)"
    by (cases "classify fmt s0 e0 (drop ?n a)") (auto simp: New_def Let_def)
  obtain s2 e2 where fin: "newDefaults s1 e1 = (s2, e2)" by (cases "newDefaults s1 e1")
  let ?a = "length (objs s2)"
  let ?s3 = "s2\<lparr>objs := objs s2 @ [e2]\<rparr>"
  have al: "alloc s2 e2 = (?s3, ?a)" by (simp add: alloc_def)
  from assms st n c fin al have tc: "traceCaller ?s3 cs (Some (TracedPtr ?a)) = Inr (s', r)"
    by (simp add: New_def Let_def)
  have d3: "deref ?s3 ?a = Some e2" by (simp add: deref_def)
  from tc traceCaller_traced [OF d3, of cs]
  have s': "s' = store ?s3 ?a (traced cs e2)" by simp
  have o: "objs s2 = objs s"
    using newInit_fields [OF st] classify_objs [OF c] newDefaults_fields [OF fin] by simp
  have "objs s' = objs s @ [traced cs e2]" by (simp add: s' store_def o)
  with st c fin show ?thesis by blast
qed

lemma New_nonneg:
  assumes "New fmt s cs p a = Inr (s', r)" and "nonnegStore s"
    and "list_all (\<lambda>k. 0 \<le> k) (statusArgs (drop (nat (pctArgs p a)) a))"
  shows "\<exists>te. resultOf (Inr (s', r)) = Some te \<and> 0 < StatusCode te \<and> nonnegStore s'"
proof -
  from New_objs [OF assms(1)] obtain s0 e0 s1 e1 s2 e2 where
    st: "newInit fmt s p (take (nat (pctArgs p a)) a) = (s0, e0)"
    and c: "classify fmt s0 e0 (drop (nat (pctArgs p a)) a) = Inr (s1, e1)"
    and fin: "newDefaults s1 e1 = (s2, e2)"
    and o: "objs s' = objs s @ [traced cs e2]"
    by blast
  from New_result [OF assms(1)] st c fin
  have r: "r = Some (TracedPtr (length (objs s)))"
    and d: "deref s' (length (objs s)) = Some (traced cs e2)" by auto
  note i = newInit_fields [OF st]
  from i assms(2) have n0: "nonnegStore s0" by (simp add: nonnegStore_def)
  from i have "0 \<le> StatusCode e0" by simp
  from classify_nonneg [OF c this n0 assms(3)] have "0 \<le> StatusCode e1" .
  with newDefaults_fields [OF fin] have "0 \<le> StatusCode e2" by simp
  then have p: "0 < StatusCode (traced cs e2)" by (rule traced_positive)
  with o assms(2) have "nonnegStore s'" by (simp add: nonnegStore_def)
  with r d p show ?thesis by (simp add: resultOf_def)
qed



lemma Convert_positive:
  assumes "\<not> isl (Convert s (Some x))" and "nonnegStore s"
  shows "\<exists>te. convertedOf (Convert s (Some x)) = Some te \<and> 0 < StatusCode te"
proof (cases "\<exists>a. x = TracedPtr a")
  case True
  then obtain a where x: "x = TracedPtr a" by blast
  from assms(1) x obtain te where d: "deref s a = Some te"
    by (cases "deref s a") simp_all
  from d have l: "a < length (objs s)" by (rule deref_Some_less)
  from nonnegStore_deref [OF assms(2) d] have "0 \<le> StatusCode te" .
  with d l x show ?thesis
    by (simp add: convertedOf_def deref_store_same)
next
  case False
  then have f: "\<forall>a. x \<noteq> TracedPtr a" by blast
  show ?thesis
    by (simp add: Convert_foreign [OF f] convertedOf_def deref_def)
qed

lemma pctArgs_empty: "pctArgs [] a = 0"
  by (simp add: pctArgs_def countPct_def)

lemma fold_appendFrame_status:
  "StatusCode (fold (\<lambda>fr t. appendFrame t fr) fs te) = StatusCode te"
  by (induction fs arbitrary: te) (simp_all add: appendFrame_def)

lemma traceFull_positive:
  assumes "\<not> isl (traceFull s cs (Some x) level)" and "nonnegStore s"
  shows "\<exists>te. resultOf (traceFull s cs (Some x) level) = Some te \<and> 0 < StatusCode te"
proof -
  from assms(1) have c: "\<not> isl (Convert s (Some x))"
    by (cases "Convert s (Some x)") (auto simp: traceFull_def)
  then obtain s1 r where cr: "Convert s (Some x) = Inr (s1, r)"
    by (cases "Convert s (Some x)") auto
  from Convert_positive [OF c assms(2)] cr obtain a te where r: "r = Some a"
    and d: "deref s1 a = Some te" and p: "0 < StatusCode te"
    by (cases r) (auto simp: convertedOf_def)
  from d have l: "a < length (objs s1)" by (rule deref_Some_less)
  let ?te = "fold (\<lambda>fr t. appendFrame t fr) (fullLoop cs (nat (if level < 0 then 0 else level))) te"
  have "traceFull s cs (Some x) level = Inr (store s1 a ?te, Some (TracedPtr a))"
    by (simp add: traceFull_def cr r d)
  moreover have "deref (store s1 a ?te) a = Some ?te" using l by (rule deref_store_same)
  moreover have "0 < StatusCode ?te" using p by (simp add: fold_appendFrame_status)
  ultimately show ?thesis by (simp add: resultOf_def)
qed

lemma CatchPanic_positive:
  assumes "\<not> isl (CatchPanic fmt s cs (Panics v))" and "v \<noteq> VNil" and "nonnegStore s"
  shows "\<exists>te. resultOf (CatchPanic fmt s cs (Panics v)) = Some te \<and> 0 < StatusCode te"
proof (cases "\<exists>e. v = VErr e")
  case True
  then obtain e where v: "v = VErr e" by blast
  then have c: "CatchPanic fmt s cs (Panics v) = traceFull s cs (Some e) 1"
    by (simp add: CatchPanic_def)
  from traceFull_positive [of s cs e 1] assms(1,3) show ?thesis unfolding c by simp
next
  case False
  obtain e s' where ef: "Errorf fmt s ''%v'' [v] = (e, s')" by (cases "Errorf fmt s ''%v'' [v]")
  then have o: "objs s' = objs s" by (auto simp: Errorf_def split: prod.splits)
  from False assms(2) ef have c: "CatchPanic fmt s cs (Panics v) = traceFull s' cs (Some e) 1"
    by (cases v) (simp_all add: CatchPanic_def)
  from assms(3) o have "nonnegStore s'" by (simp add: nonnegStore_def)
  from traceFull_positive [of s' cs e 1] assms(1) this show ?thesis unfolding c by simp
qed

text \<open>
  C7, as the code has it.  \<^verbatim>\<open>New\<close> stores any integer it is given, so the status
  code is in the range from 0 on only when no negative one comes in: from a store
  whose objects have no negative status code, and (for \<^verbatim>\<open>New\<close> and \<^verbatim>\<open>Trace\<close>)
  with no negative integer classified as a status code, the error that
  \<^verbatim>\<open>New\<close>, \<^verbatim>\<open>Trace\<close>, \<^verbatim>\<open>Convert\<close> or \<^verbatim>\<open>Join\<close> returns, and the one that
  \<^verbatim>\<open>CatchPanic\<close> makes of a panic, has a stored status code that is not
  negative, and it is never zero.  \<^verbatim>\<open>StatusCode\<close> reads a
  stored zero as 500.
\<close>

theorem status_code_range:
  "(\<not> isl (New fmt s cs p a) \<and> nonnegStore s
      \<and> list_all (\<lambda>k. 0 \<le> k) (statusArgs (drop (nat (pctArgs p a)) a))
     \<longrightarrow> (\<exists>te. resultOf (New fmt s cs p a) = Some te \<and> 0 \<le> StatusCode te \<and> StatusCode te \<noteq> 0))
   \<and> (\<not> isl (Trace_err fmt s cs (Some x) b) \<and> nonnegStore s
      \<and> list_all (\<lambda>k. 0 \<le> k) (statusArgs b)
     \<longrightarrow> (\<exists>te. resultOf (Trace_err fmt s cs (Some x) b) = Some te
            \<and> 0 \<le> StatusCode te \<and> StatusCode te \<noteq> 0))
   \<and> (\<not> isl (Convert s (Some x)) \<and> nonnegStore s
     \<longrightarrow> (\<exists>te. convertedOf (Convert s (Some x)) = Some te \<and> 0 \<le> StatusCode te \<and> StatusCode te \<noteq> 0))
   \<and> (\<not> isl (Join s cs errs) \<and> nonNil errs \<noteq> [] \<and> nonnegStore s
     \<longrightarrow> (\<exists>te. resultOf (Join s cs errs) = Some te \<and> 0 \<le> StatusCode te \<and> StatusCode te \<noteq> 0))
   \<and> (\<not> isl (CatchPanic fmt s cs (Panics v)) \<and> v \<noteq> VNil \<and> nonnegStore s
     \<longrightarrow> (\<exists>te. resultOf (CatchPanic fmt s cs (Panics v)) = Some te
            \<and> 0 \<le> StatusCode te \<and> StatusCode te \<noteq> 0))
   \<and> (deref s d = Some te0
     \<longrightarrow> valueOf (StatusCode_of s (Some (TracedPtr d))) =
           Some (if StatusCode te0 = 0 then 500 else StatusCode te0))"
proof (intro conjI impI)
  assume h: "\<not> isl (New fmt s cs p a) \<and> nonnegStore s
      \<and> list_all (\<lambda>k. 0 \<le> k) (statusArgs (drop (nat (pctArgs p a)) a))"
  then obtain s' r where n: "New fmt s cs p a = Inr (s', r)"
    by (cases "New fmt s cs p a") auto
  from New_nonneg [OF n] h n
  show "\<exists>te. resultOf (New fmt s cs p a) = Some te \<and> 0 \<le> StatusCode te \<and> StatusCode te \<noteq> 0"
    by auto
next
  assume h: "\<not> isl (Trace_err fmt s cs (Some x) b) \<and> nonnegStore s
      \<and> list_all (\<lambda>k. 0 \<le> k) (statusArgs b)"
  have t: "Trace_err fmt s cs (Some x) b = New fmt s cs [] (VErr x # b)"
    by (simp add: Trace_err_def)
  from h t obtain s' r where n: "New fmt s cs [] (VErr x # b) = Inr (s', r)"
    by (cases "New fmt s cs [] (VErr x # b)") auto
  have "statusArgs (drop (nat (pctArgs [] (VErr x # b))) (VErr x # b)) = statusArgs b"
    by (simp add: pctArgs_empty)
  with New_nonneg [OF n] h n t
  show "\<exists>te. resultOf (Trace_err fmt s cs (Some x) b) = Some te
            \<and> 0 \<le> StatusCode te \<and> StatusCode te \<noteq> 0"
    by auto
next
  assume "\<not> isl (Convert s (Some x)) \<and> nonnegStore s"
  with Convert_positive [of s x]
  show "\<exists>te. convertedOf (Convert s (Some x)) = Some te \<and> 0 \<le> StatusCode te \<and> StatusCode te \<noteq> 0"
    by auto
next
  assume h: "\<not> isl (Join s cs errs) \<and> nonNil errs \<noteq> [] \<and> nonnegStore s"
  then obtain s' r where j: "Join s cs errs = Inr (s', r)"
    by (cases "Join s cs errs") auto
  from h have nn: "nonnegStore s" by simp
  then have nn': "nonnegStore (s\<lparr>nextid := Suc (nextid s)\<rparr>)" by (simp add: nonnegStore_def)
  from Join_cases [OF j] h
  have "\<exists>a te. r = Some (TracedPtr a) \<and> deref s' a = Some te \<and> 0 < StatusCode te
           \<and> nonnegStore s'"
    using traceCaller_positive [OF _ nn] traceCaller_positive [OF _ nn'] by auto
  with j show "\<exists>te. resultOf (Join s cs errs) = Some te \<and> 0 \<le> StatusCode te \<and> StatusCode te \<noteq> 0"
    by (auto simp: resultOf_def)
next
  assume "\<not> isl (CatchPanic fmt s cs (Panics v)) \<and> v \<noteq> VNil \<and> nonnegStore s"
  with CatchPanic_positive [of fmt s cs v]
  show "\<exists>te. resultOf (CatchPanic fmt s cs (Panics v)) = Some te
            \<and> 0 \<le> StatusCode te \<and> StatusCode te \<noteq> 0"
    by auto
next
  assume d: "deref s d = Some te0"
  then have l: "d < length (objs s)" by (rule deref_Some_less)
  from d l show "valueOf (StatusCode_of s (Some (TracedPtr d))) =
           Some (if StatusCode te0 = 0 then 500 else StatusCode te0)"
    by (simp add: valueOf_def deref_store_same)
qed

text \<open>C7 as stated fails: \<^verbatim>\<open>New("msg", -1)\<close> stores the status code -1.\<close>

theorem status_code_range_counterexample:
  "map_option StatusCode (resultOf (New plainFormat state0 stackMain ''msg'' [VInt (- 1)])) = Some (- 1)"
  by (simp add: eval_defs state0_def)


theorem status_code_range_witness:
  "nonnegStore stateBoom
   \<and> \<not> isl (New plainFormat stateBoom stackMain ''m'' [VInt 400])
   \<and> (\<exists>te. resultOf (New plainFormat stateBoom stackMain ''m'' [VInt 400]) = Some te
            \<and> 0 \<le> StatusCode te \<and> StatusCode te \<noteq> 0)
   \<and> \<not> isl (Trace_err plainFormat stateBoom stackMain (Some boom) [VInt 403])
   \<and> (\<exists>te. resultOf (Trace_err plainFormat stateBoom stackMain (Some boom) [VInt 403]) = Some te
            \<and> 0 \<le> StatusCode te \<and> StatusCode te \<noteq> 0)
   \<and> \<not> isl (Convert stateBoom (Some boom))
   \<and> (\<exists>te. convertedOf (Convert stateBoom (Some boom)) = Some te
            \<and> 0 \<le> StatusCode te \<and> StatusCode te \<noteq> 0)
   \<and> \<not> isl (Join stateBoom stackMain [Some boom, None])
   \<and> (\<exists>te. resultOf (Join stateBoom stackMain [Some boom, None]) = Some te
            \<and> 0 \<le> StatusCode te \<and> StatusCode te \<noteq> 0)
   \<and> \<not> isl (CatchPanic plainFormat stateBoom stackMain (Panics (VStr ''oops'')))
   \<and> (\<exists>te. resultOf (CatchPanic plainFormat stateBoom stackMain (Panics (VStr ''oops''))) = Some te
            \<and> 0 \<le> StatusCode te \<and> StatusCode te \<noteq> 0)
   \<and> valueOf (StatusCode_of stateBoom (Some (TracedPtr 0))) = Some 500"
proof -
  have 1: "nonnegStore stateBoom" by (simp add: nonnegStore_def stateBoom_def emptyTraced_def)
  have 2: "\<not> isl (New plainFormat stateBoom stackMain ''m'' [VInt 400])"
    by (simp add: eval_defs stateBoom_def)
  have 3: "list_all (\<lambda>k. 0 \<le> k) (statusArgs (drop (nat (pctArgs ''m'' [VInt 400])) [VInt 400]))"
    by (simp add: eval_pct)
  have 4: "\<not> isl (Trace_err plainFormat stateBoom stackMain (Some boom) [VInt 403])"
    by (simp add: eval_defs stateBoom_def Trace_err_def boom_def)
  have 5: "list_all (\<lambda>k. 0 \<le> k) (statusArgs [VInt 403])" by simp
  have 6: "\<not> isl (Convert stateBoom (Some boom))" by (simp add: boom_def alloc_def)
  have 7: "\<not> isl (Join stateBoom stackMain [Some boom, None])"
    by (simp add: Join_one traceCaller_foreign boom_def)
  have 8: "nonNil [Some boom, None] \<noteq> []" by simp
  have 9: "StatusCode (emptyTraced\<lparr>Err := Some boom\<rparr>) = 0" by (simp add: emptyTraced_def)
  have 10: "\<not> isl (CatchPanic plainFormat stateBoom stackMain (Panics (VStr ''oops'')))"
    by (simp add: CatchPanic_def Errorf_def plainFormat_def List.map_filter_simps traceFull_def
        alloc_def deref_def)
  from status_code_range [where fmt = plainFormat and s = stateBoom and cs = stackMain
      and p = "''m''" and a = "[VInt 400]" and x = boom and b = "[VInt 403]"
      and errs = "[Some boom, None]" and v = "VStr ''oops''" and d = 0 and ?te0.0 = "emptyTraced\<lparr>Err := Some boom\<rparr>"]
    1 2 3 4 5 6 7 8 9 10 deref_stateBoom
  show ?thesis by simp
qed

subsection \<open>The sentinel key\<close>

lemma otherArgs_step:
  "classified (v # rest) = v # classified rest' \<Longrightarrow>
   otherArgs (v # rest) = (if isOther v then [v] else []) @ otherArgs rest'"
  by (simp add: otherArgs_def)

lemma keyArgs_step:
  "classified (v # rest) = v # classified rest' \<Longrightarrow>
   keyArgs (v # rest) =
     (case v of VStr k \<Rightarrow> (if length k = 32 \<and> isHex k then [] else [k]) | _ \<Rightarrow> []) @ keyArgs rest'"
  by (cases v) (simp_all add: keyArgs_def List.map_filter_simps)

lemma classifyArg_sentinel:
  assumes "classifyArg fmt s e v rest = Inr (s', e', rest')"
    and "''!BADKEY'' \<notin> set (keyArgs (v # rest))"
    and "\<forall>b\<in>set (mergedArgs (v # rest)). \<forall>te. deref s b = Some te \<longrightarrow> Properties te ''!BADKEY'' = None"
  shows "Properties e' ''!BADKEY'' = (if isOther v then Some v else Properties e ''!BADKEY'')"
proof (cases v)
  case (VInt k)
  with assms(1) show ?thesis
    by (cases "Err e = None") (auto simp: stderrorsNew_def isOther_def)
next
  case (VErr k)
  obtain s1 e1 where w: "wrapCause fmt s e k = (s1, e1)" by (cases "wrapCause fmt s e k")
  note f = wrapCause_fields [OF w]
  note r = classifyArg_VErr [OF assms(1) [unfolded VErr] w]
  show ?thesis
  proof (cases k)
    case (TracedPtr a)
    with r obtain te where d: "deref s a = Some te" and e': "e' = mergeTraced e1 te" by auto
    from assms(3) VErr TracedPtr d have "Properties te ''!BADKEY'' = None" by simp
    with e' f VErr show ?thesis
      by (simp add: mergeTraced_def Let_def isOther_def map_add_def)
  next
    case (ErrorString i m)
    with r f VErr show ?thesis by (simp add: isOther_def)
  next
    case (WrapError i m ws)
    with r f VErr show ?thesis by (simp add: isOther_def)
  next
    case (JoinError i es)
    with r f VErr show ?thesis by (simp add: isOther_def)
  qed
next
  case (VStr k)
  show ?thesis
  proof (cases "length k = 32 \<and> isHex k")
    case True
    with assms(1) VStr show ?thesis by (auto simp: isOther_def)
  next
    case False
    from keyArgs_step [OF classifyArg_classified [OF assms(1)]] VStr False assms(2)
    have "k \<noteq> ''!BADKEY''" by auto
    with assms(1) VStr False show ?thesis
      by (cases rest) (auto simp: isOther_def)
  qed
next
  case VNil
  with assms(1) show ?thesis by (auto simp: isOther_def)
next
  case (VBool b)
  with assms(1) show ?thesis by (auto simp: isOther_def)
next
  case (VFrames fs)
  with assms(1) show ?thesis by (auto simp: isOther_def)
qed

lemma classify_sentinel:
  "classify fmt s e a = Inr (s', e') \<Longrightarrow> ''!BADKEY'' \<notin> set (keyArgs a) \<Longrightarrow>
   \<forall>b\<in>set (mergedArgs a). \<forall>te. deref s b = Some te \<longrightarrow> Properties te ''!BADKEY'' = None \<Longrightarrow>
   Properties e' ''!BADKEY'' =
     (if otherArgs a = [] then Properties e ''!BADKEY'' else Some (last (otherArgs a)))"
proof (induction fmt s e a arbitrary: s' e' rule: classify.induct)
  case (1 fmt s e)
  then show ?case by (simp add: otherArgs_def)
next
  case (2 fmt s e v rest)
  from "2.prems"(1) obtain s1 e1 rest1 where st: "classifyArg fmt s e v rest = Inr (s1, e1, rest1)"
    and c: "classify fmt s1 e1 rest1 = Inr (s', e')"
    by (auto split: sum.splits)
  note cl = classifyArg_classified [OF st]
  note oa = otherArgs_step [OF cl]
  from keyArgs_step [OF cl] "2.prems"(2) have k: "''!BADKEY'' \<notin> set (keyArgs rest1)" by auto
  have o: "deref s1 b = deref s b" for b
    using classifyArg_objs [OF st] by (simp add: deref_def)
  have "set (mergedArgs rest1) \<subseteq> set (mergedArgs (v # rest))"
    using mergedArgs_step [OF cl] by simp
  with "2.prems"(3)
  have m: "\<forall>b\<in>set (mergedArgs rest1). \<forall>te. deref s1 b = Some te \<longrightarrow> Properties te ''!BADKEY'' = None"
    unfolding o by blast
  note step = classifyArg_sentinel [OF st "2.prems"(2) "2.prems"(3)]
  from "2.IH" [OF st refl refl c k m] step oa show ?case by auto
qed


text \<open>
  C8, as the code has it.  Every argument that is neither an integer, an error
  nor a string is written under the one key \<^verbatim>\<open>"!BADKEY"\<close>, over what that key
  held.  So the error that \<^verbatim>\<open>New\<close> returns records, under that key, the value of
  the last such argument among the classified ones, as long as no property key
  of the call is \<^verbatim>\<open>"!BADKEY"\<close> itself and no merged error brings a property of
  that name.
\<close>

theorem sentinel_property:
  "\<not> isl (New fmt s cs p a) \<and> otherArgs (drop (nat (pctArgs p a)) a) \<noteq> []
   \<and> ''!BADKEY'' \<notin> set (keyArgs (drop (nat (pctArgs p a)) a))
   \<and> (\<forall>b\<in>set (mergedArgs (drop (nat (pctArgs p a)) a)).
         \<forall>te. deref s b = Some te \<longrightarrow> Properties te ''!BADKEY'' = None)
   \<longrightarrow> (\<exists>te. resultOf (New fmt s cs p a) = Some te
          \<and> Properties te ''!BADKEY'' = Some (last (otherArgs (drop (nat (pctArgs p a)) a))))"
proof
  let ?rest = "drop (nat (pctArgs p a)) a"
  assume h: "\<not> isl (New fmt s cs p a) \<and> otherArgs ?rest \<noteq> []
   \<and> ''!BADKEY'' \<notin> set (keyArgs ?rest)
   \<and> (\<forall>b\<in>set (mergedArgs ?rest). \<forall>te. deref s b = Some te \<longrightarrow> Properties te ''!BADKEY'' = None)"
  then obtain s' r where n: "New fmt s cs p a = Inr (s', r)"
    by (cases "New fmt s cs p a") auto
  from New_result [OF n] obtain s0 e0 s1 e1 s2 e2 where
    st: "newInit fmt s p (take (nat (pctArgs p a)) a) = (s0, e0)"
    and c: "classify fmt s0 e0 ?rest = Inr (s1, e1)"
    and fin: "newDefaults s1 e1 = (s2, e2)"
    and r: "r = Some (TracedPtr (length (objs s)))"
    and d: "deref s' (length (objs s)) = Some (traced cs e2)"
    by blast
  have o: "deref s0 b = deref s b" for b
    using newInit_fields [OF st] by (simp add: deref_def)
  from h have m: "\<forall>b\<in>set (mergedArgs ?rest). \<forall>te. deref s0 b = Some te \<longrightarrow> Properties te ''!BADKEY'' = None"
    unfolding o by blast
  from h have k: "''!BADKEY'' \<notin> set (keyArgs ?rest)" and ne: "otherArgs ?rest \<noteq> []" by simp_all
  from classify_sentinel [OF c k m] ne
  have "Properties e1 ''!BADKEY'' = Some (last (otherArgs ?rest))" by simp
  with newDefaults_fields [OF fin] traced_fields [of cs e2]
  have "Properties (traced cs e2) ''!BADKEY'' = Some (last (otherArgs ?rest))" by simp
  with n r d show "\<exists>te. resultOf (New fmt s cs p a) = Some te
          \<and> Properties te ''!BADKEY'' = Some (last (otherArgs ?rest))"
    by (simp add: resultOf_def)
qed

text \<open>
  C8 as stated fails for several such arguments: after \<^verbatim>\<open>New("msg", false, true)\<close>
  the property bag holds \<^verbatim>\<open>true\<close> under the sentinel key and nothing else, so
  \<^verbatim>\<open>false\<close> is not recorded.
\<close>

theorem sentinel_property_counterexample:
  "map_option Properties (resultOf (New plainFormat state0 stackMain ''msg'' [VBool False, VBool True]))
     = Some [''!BADKEY'' \<mapsto> VBool True]"
  by (simp add: eval_defs state0_def)

theorem sentinel_property_witness:
  "\<not> isl (New plainFormat state0 stackMain ''m'' [VBool False, VStr ''dur'', VInt 1000])
   \<and> otherArgs [VBool False, VStr ''dur'', VInt 1000] = [VBool False]
   \<and> keyArgs [VBool False, VStr ''dur'', VInt 1000] = [''dur'']
   \<and> mergedArgs [VBool False, VStr ''dur'', VInt 1000] = []
   \<and> (\<exists>te. resultOf (New plainFormat state0 stackMain ''m'' [VBool False, VStr ''dur'', VInt 1000]) = Some te
          \<and> Properties te ''!BADKEY'' = Some (VBool False))"
proof -
  have 1: "\<not> isl (New plainFormat state0 stackMain ''m'' [VBool False, VStr ''dur'', VInt 1000])"
    by (simp add: eval_defs state0_def)
  have 2: "otherArgs [VBool False, VStr ''dur'', VInt 1000] = [VBool False]"
    by (simp add: otherArgs_def isOther_def)
  have 3: "keyArgs [VBool False, VStr ''dur'', VInt 1000] = [''dur'']"
    by (simp add: keyArgs_def List.map_filter_simps)
  have 4: "mergedArgs [VBool False, VStr ''dur'', VInt 1000] = []" by simp
  have 5: "drop (nat (pctArgs ''m'' a)) a = a" for a by (simp add: eval_pct)
  from sentinel_property [where fmt = plainFormat and s = state0 and cs = stackMain
      and p = "''m''" and a = "[VBool False, VStr ''dur'', VInt 1000]"] 1 2 3 4 5
  show ?thesis by simp
qed

subsection \<open>The containment walk\<close>








subsection \<open>What Join returns\<close>












subsection \<open>The structured form and back\<close>












end
